theory Spec2Isabelle
  imports Main "HOL-Library.AList"
begin

section \<open>Values\<close>

text \<open>
  The values that cross the executor's interfaces. Objects are opaque references; an
  \<open>Error\<close> object is identified by its message, a built-in function by its name, and
  \<open>ObjectPrototype\<close> is the realm's \<open>Object.prototype\<close>.
\<close>

datatype jsval =
    Undefined
  | Null
  | Bool bool
  | Num int
  | Str string
  | Obj nat
  | Error string
  | Builtin string
  | ObjectPrototype

text \<open>The outcome of a call: \<open>Inl e\<close> when it throws \<open>e\<close>, \<open>Inr v\<close> when it returns \<open>v\<close>.\<close>

type_synonym outcome = "jsval + jsval"

text \<open>JavaScript truthiness, as used by \<open>if (x)\<close>, \<open>!x\<close>, \<open>x && y\<close> and \<open>x || y\<close>.\<close>

fun truthy :: "jsval \<Rightarrow> bool" where
  "truthy Undefined = False"
| "truthy Null = False"
| "truthy (Bool b) = b"
| "truthy (Num n) = (n \<noteq> 0)"
| "truthy (Str s) = (s \<noteq> [])"
| "truthy (Obj _) = True"
| "truthy (Error _) = True"
| "truthy (Builtin _) = True"
| "truthy ObjectPrototype = True"

text \<open>An optional string property: absent (\<open>undefined\<close>) or a string; the empty string is falsy.\<close>

fun truthy_str :: "string option \<Rightarrow> bool" where
  "truthy_str None = False"
| "truthy_str (Some s) = (s \<noteq> [])"

text \<open>\<open>x || ''\<close> on an optional string property.\<close>

fun or_empty :: "string option \<Rightarrow> string" where
  "or_empty None = []"
| "or_empty (Some s) = s"

text \<open>\<open>x != null\<close>: false exactly for \<open>null\<close> and \<open>undefined\<close>.\<close>

fun not_nullish :: "jsval \<Rightarrow> bool" where
  "not_nullish Undefined = False"
| "not_nullish Null = False"
| "not_nullish _ = True"

text \<open>Whether a value is an object.\<close>

fun is_object :: "jsval \<Rightarrow> bool" where
  "is_object (Obj _) = True"
| "is_object (Error _) = True"
| "is_object (Builtin _) = True"
| "is_object ObjectPrototype = True"
| "is_object _ = False"

text \<open>The \<open>TypeError\<close> the engine throws; its message is left out.\<close>

definition type_error :: jsval where
  "type_error = Error ''TypeError''"

section \<open>The exports object\<close>

text \<open>
  \<open>createExports\<close> makes a plain object and wraps it in a proxy whose only trap is
  \<open>defineProperty\<close>; every other operation on the proxy reaches the plain object itself.
  The plain object has its own properties, in the order they were created, its prototype
  (an object or \<open>null\<close>) and its extensible flag. An own property can only come from the
  assignment in the trap, so each is a writable, enumerable and configurable data property
  and is given by its name and value.
\<close>

record exports_object =
  own :: "(string \<times> jsval) list"
  proto :: jsval
  extensible :: bool

definition createExports :: exports_object where
  "createExports = \<lparr>own = [], proto = ObjectPrototype, extensible = True\<rparr>"

text \<open>
  What an object finds along its prototype chain under a name it does not own: nothing, a
  data property (its value, and whether it is writable), the \<open>__proto__\<close> accessor of
  \<open>Object.prototype\<close>, or another accessor (the value its getter returns, \<open>undefined\<close>
  without a getter, and whether it has a setter). A realm says this for every prototype
  and name. The setter of an accessor other than \<open>__proto__\<close> is taken to leave the
  exports object as it is.
\<close>

datatype inherited =
    NotInherited
  | InheritedData jsval bool
  | InheritedProto
  | InheritedAccessor jsval bool

type_synonym realm = "jsval \<Rightarrow> string \<Rightarrow> inherited"

definition inherited_property :: "realm \<Rightarrow> exports_object \<Rightarrow> string \<Rightarrow> inherited" where
  "inherited_property inh t name =
     (if proto t = Null then NotInherited else inh (proto t) name)"

text \<open>
  Reading \<open>exports[name]\<close>: the own property, else what the prototype chain gives, else
  \<open>undefined\<close>. The \<open>__proto__\<close> getter returns the object's prototype.
\<close>

definition get_property :: "realm \<Rightarrow> exports_object \<Rightarrow> string \<Rightarrow> jsval" where
  "get_property inh t name =
     (case map_of (own t) name of
        Some v \<Rightarrow> v
      | None \<Rightarrow>
         (case inherited_property inh t name of
            NotInherited \<Rightarrow> Undefined
          | InheritedData v w \<Rightarrow> v
          | InheritedProto \<Rightarrow> proto t
          | InheritedAccessor v s \<Rightarrow> v))"

text \<open>
  Setting the prototype of the plain object to an object or \<open>null\<close>, as the \<open>__proto__\<close>
  setter and \<open>Object.setPrototypeOf\<close> do: a non-extensible object refuses a different
  prototype, and both callers then throw a \<open>TypeError\<close>. The check against a cyclic chain
  is left out: no value here has the exports object on its chain.
\<close>

definition set_prototype :: "jsval \<Rightarrow> exports_object \<Rightarrow> jsval + exports_object" where
  "set_prototype v t =
     (if v = proto t then Inr t
      else if extensible t then Inr (t\<lparr>proto := v\<rparr>)
      else Inl type_error)"

text \<open>\<open>exports[name] = v\<close> on the plain object, writing the value of an own property.\<close>

definition set_property :: "string \<Rightarrow> jsval \<Rightarrow> exports_object \<Rightarrow> exports_object" where
  "set_property name v t = t\<lparr>own := AList.update name v (own t)\<rparr>"

text \<open>
  \<open>exports[name] = v\<close> on the plain object, in strict code (the executor is a module). An
  own property takes the value. Otherwise the prototype chain decides: a read-only data
  property or an accessor without setter makes the assignment throw a \<open>TypeError\<close>; the
  \<open>__proto__\<close> setter changes the prototype when the value is an object or \<open>null\<close> and
  does nothing for another value; another setter is called; in every other case a new own
  property is created, which a non-extensible object refuses with a \<open>TypeError\<close>.
\<close>

definition assign_property ::
  "realm \<Rightarrow> string \<Rightarrow> jsval \<Rightarrow> exports_object \<Rightarrow> jsval + exports_object" where
  "assign_property inh name v t =
     (case map_of (own t) name of
        Some old \<Rightarrow> Inr (set_property name v t)
      | None \<Rightarrow>
         (case inherited_property inh t name of
            NotInherited \<Rightarrow>
              (if extensible t then Inr (set_property name v t) else Inl type_error)
          | InheritedData x writable \<Rightarrow>
              (if \<not> writable then Inl type_error
               else if extensible t then Inr (set_property name v t)
               else Inl type_error)
          | InheritedProto \<Rightarrow>
              (if is_object v \<or> v = Null then set_prototype v t else Inr t)
          | InheritedAccessor x has_setter \<Rightarrow>
              (if has_setter then Inr t else Inl type_error)))"

text \<open>\<open>delete exports[name]\<close>; the proxy has no \<open>deleteProperty\<close> trap.\<close>

definition delete_property :: "string \<Rightarrow> exports_object \<Rightarrow> exports_object" where
  "delete_property name t = t\<lparr>own := AList.delete name (own t)\<rparr>"

text \<open>
  An array index: the canonical decimal text of a number below \<open>2^32 - 1\<close>.
\<close>

definition digit_of :: "char \<Rightarrow> nat option" where
  "digit_of c =
     map_of [(CHR ''0'', 0), (CHR ''1'', 1), (CHR ''2'', 2), (CHR ''3'', 3), (CHR ''4'', 4),
             (CHR ''5'', 5), (CHR ''6'', 6), (CHR ''7'', 7), (CHR ''8'', 8), (CHR ''9'', 9)] c"

definition index_of :: "string \<Rightarrow> nat" where
  "index_of s = foldl (\<lambda>n c. 10 * n + (case digit_of c of None \<Rightarrow> 0 | Some d \<Rightarrow> d)) 0 s"

definition is_array_index :: "string \<Rightarrow> bool" where
  "is_array_index s =
     (s \<noteq> [] \<and> list_all (\<lambda>c. digit_of c \<noteq> None) s \<and>
      (s = ''0'' \<or> take 1 s \<noteq> ''0'') \<and> index_of s < 4294967295)"

text \<open>
  \<open>Object.getOwnPropertyNames(exports)\<close>: the array indices in ascending order, then the
  other names in the order they were created.
\<close>

definition getOwnPropertyNames :: "exports_object \<Rightarrow> string list" where
  "getOwnPropertyNames t =
     sort_key index_of (filter is_array_index (map fst (own t))) @
     filter (\<lambda>name. \<not> is_array_index name) (map fst (own t))"

text \<open>
  A property descriptor as it is given to \<open>Object.defineProperty\<close>. Each field may be
  absent. \<open>get\<close> is absent, present and \<open>undefined\<close>, or a function, given by what invoking
  it does: it throws or returns a value. Of \<open>set\<close> only its presence matters.
\<close>

datatype getter = NoGetter | UndefinedGetter | Getter "unit \<Rightarrow> outcome"

record descriptor =
  desc_get :: getter
  desc_set :: bool
  desc_value :: "jsval option"
  desc_writable :: "bool option"
  desc_enumerable :: "bool option"
  desc_configurable :: "bool option"

text \<open>The descriptors \<open>{value: v}\<close> and \<open>{get: g}\<close>.\<close>

definition value_descriptor :: "jsval \<Rightarrow> descriptor" where
  "value_descriptor v =
     \<lparr>desc_get = NoGetter, desc_set = False, desc_value = Some v, desc_writable = None,
      desc_enumerable = None, desc_configurable = None\<rparr>"


text \<open>
  \<open>Object.defineProperty\<close> refuses, with a \<open>TypeError\<close>, a descriptor that has \<open>get\<close> or
  \<open>set\<close> together with \<open>value\<close> or \<open>writable\<close>.
\<close>

definition valid_descriptor :: "descriptor \<Rightarrow> bool" where
  "valid_descriptor attrs =
     (\<not> ((desc_get attrs \<noteq> NoGetter \<or> desc_set attrs) \<and>
         (desc_value attrs \<noteq> None \<or> desc_writable attrs \<noteq> None)))"

text \<open>\<open>attrs.value\<close>: \<open>undefined\<close> when the field is absent.\<close>

definition attrs_value :: "descriptor \<Rightarrow> jsval" where
  "attrs_value attrs = (case desc_value attrs of None \<Rightarrow> Undefined | Some v \<Rightarrow> v)"

text \<open>
  The \<open>defineProperty\<close> trap of the proxy: what it returns or throws, and the plain object
  after the call. \<open>attrs.get\<close> is truthy when it is a function.
\<close>

definition defineProperty ::
  "realm \<Rightarrow> exports_object \<Rightarrow> string \<Rightarrow> descriptor \<Rightarrow> (jsval + bool) \<times> exports_object" where
  "defineProperty inh t prop attrs =
     (if prop = ''__esModule'' then (Inr True, t)
      else (case desc_get attrs of
              Getter g \<Rightarrow>
                (case g () of
                   Inl e \<Rightarrow> (Inl e, t)
                 | Inr v \<Rightarrow>
                    (case assign_property inh prop v t of
                       Inl e \<Rightarrow> (Inl e, t)
                     | Inr t' \<Rightarrow> (Inr True, t')))
            | _ \<Rightarrow>
                (case assign_property inh prop (attrs_value attrs) t of
                   Inl e \<Rightarrow> (Inl e, t)
                 | Inr t' \<Rightarrow> (Inr True, t'))))"

text \<open>
  \<open>Object.defineProperty(exports, prop, attrs)\<close> on the proxy: a descriptor that is not
  valid is refused; else the trap runs, and when it has returned, the proxy checks its
  result against the plain object. It throws a \<open>TypeError\<close> when the trap returned false,
  when the plain object does not own the property and is not extensible, and when the
  descriptor asks for a non-configurable property, which the plain object never has. An
  assignment \<open>exports.x = v\<close> through the proxy takes this way too, with a descriptor
  whose value is \<open>v\<close>, when \<open>x\<close> is an own property or a new one can be created.
\<close>

definition define_on_proxy ::
  "realm \<Rightarrow> exports_object \<Rightarrow> string \<Rightarrow> descriptor \<Rightarrow> (jsval + bool) \<times> exports_object" where
  "define_on_proxy inh t prop attrs =
     (if \<not> valid_descriptor attrs then (Inl type_error, t)
      else (case defineProperty inh t prop attrs of
              (Inl e, t') \<Rightarrow> (Inl e, t')
            | (Inr ok, t') \<Rightarrow>
                if \<not> ok then (Inl type_error, t')
                else if map_of (own t') prop = None \<and> \<not> extensible t' then
                  (Inl type_error, t')
                else if desc_configurable attrs = Some False then (Inl type_error, t')
                else (Inr True, t')))"

text \<open>\<open>Object.setPrototypeOf(exports, v)\<close> and \<open>Object.preventExtensions(exports)\<close>.\<close>

definition setPrototypeOf :: "jsval \<Rightarrow> exports_object \<Rightarrow> jsval + exports_object" where
  "setPrototypeOf v t =
     (if is_object v \<or> v = Null then set_prototype v t else Inl type_error)"

definition preventExtensions :: "exports_object \<Rightarrow> exports_object" where
  "preventExtensions t = t\<lparr>extensible := False\<rparr>"

section \<open>What the collaborators hand over\<close>

text \<open>The classifier's result (\<open>getCodeMetadata\<close>): \<open>meta.mode\<close> and \<open>meta.module\<close>.\<close>

record metadata =
  meta_mode :: string
  meta_module :: "string option"

text \<open>A diagnostic of the converter, with \<open>start.line\<close> and \<open>start.character\<close>.\<close>

record diagnostic =
  fileName :: "string option"
  start_line :: int
  start_character :: int
  messageText :: string

text \<open>A generated side module as the converter reports it.\<close>

record side_output =
  so_path :: string
  so_data :: string

text \<open>The result of \<open>convert\<close>; an optional property is \<open>None\<close> when it is \<open>undefined\<close>.\<close>

record converted =
  conv_output :: "string option"
  declOutput :: "string option"
  diagnostics :: "diagnostic list"
  hasToplevelAwait :: bool
  conv_sideOutputs :: "side_output list option"
  lastExpressionVar :: "string option"

text \<open>
  What running a module's code does, as far as the executor is concerned: it calls the
  \<open>require\<close> it was given, any number of times, and then either throws or finishes with
  \<open>module.exports\<close> holding a value. A call of \<open>require\<close> hands its outcome (a value or an
  exception the code may catch) to the rest of the code.
\<close>

datatype module_code =
    MExports jsval
  | MThrow jsval
  | MRequire "string list" "outcome \<Rightarrow> module_code"

text \<open>
  What running a wrapped snippet does. The function receives \<open>__tslab__.exports\<close> and
  \<open>__tslab__.require\<close> and nothing else of the executor: it can call \<open>require\<close>, define,
  read and delete properties of \<open>exports\<close>, change its prototype, make it non-extensible,
  return, throw, and (in an \<open>async\<close> function) wait at an \<open>await\<close> for a promise that later
  settles with a value or a rejection. Where an operation on \<open>exports\<close> can throw, the
  rest of the code is given the exception, if there was one.
\<close>

datatype snippet_code =
    Return
  | Throw jsval
  | Require "string list" "outcome \<Rightarrow> snippet_code"
  | DefineProperty string descriptor "jsval option \<Rightarrow> snippet_code"
  | GetProperty string "jsval \<Rightarrow> snippet_code"
  | DeleteProperty string snippet_code
  | SetPrototypeOf jsval "jsval option \<Rightarrow> snippet_code"
  | PreventExtensions snippet_code
  | Await "outcome \<Rightarrow> snippet_code"

text \<open>
  What the executor takes from Node and from the rest of the package: the classifier, the
  two converters (\<open>Inl e\<close> when a call throws \<open>e\<close>), \<open>normalizeJoin\<close> of \<open>tspath\<close>,
  \<open>path.extname\<close>, \<open>path.dirname\<close>, the \<open>require\<close> that Node makes for a file name, the
  package's public interface (\<open>require('..')\<close>), the behaviour of the code \<open>_compile\<close> builds
  from a source text under a file name, and the behaviour of a wrapped snippet text in
  \<open>vm.runInThisContext\<close>. \<open>stack\<close> is the number of nested module loads the call stack
  has room for, and \<open>inherits\<close> is what objects inherit in the realm the snippets run in.
\<close>

record host =
  getCodeMetadata :: "string \<Rightarrow> metadata"
  node_convert :: "string \<Rightarrow> string \<Rightarrow> jsval + converted"
  node_addModule :: "string \<Rightarrow> string \<Rightarrow> metadata \<Rightarrow> jsval + diagnostic list"
  browser_addModule :: "string \<Rightarrow> string \<Rightarrow> metadata \<Rightarrow> jsval + diagnostic list"
  normalizeJoin :: "string \<Rightarrow> string \<Rightarrow> string"
  path_extname :: "string \<Rightarrow> string"
  path_dirname :: "string \<Rightarrow> string"
  module_require :: "string \<Rightarrow> string list \<Rightarrow> outcome"
  tslab :: jsval
  module_compile :: "string \<Rightarrow> string \<Rightarrow> module_code"
  runInThisContext :: "string \<Rightarrow> snippet_code"
  stack :: nat
  inherits :: realm

section \<open>Side modules and the wrapped require\<close>

text \<open>
  A loaded module instance. \<open>compiled_from\<close> is not a field of Node's \<open>Module\<close>: it
  records the source text that was handed to \<open>_compile\<close> when the instance was made.
\<close>

record node_module =
  mod_filename :: string
  mod_exports :: jsval
  compiled_from :: string

text \<open>\<open>sideOutputs\<close> maps a path to generated source text, \<open>sideModules\<close> a path to its instance.\<close>

type_synonym outputs = "string \<rightharpoonup> string"
type_synonym modules = "string \<rightharpoonup> node_module"

text \<open>\<open>createRequire\<close>: the host's \<open>require\<close> for the file \<open>src.js\<close> under \<open>rootDir\<close>.\<close>

definition createRequire :: "host \<Rightarrow> string \<Rightarrow> string list \<Rightarrow> outcome" where
  "createRequire h rootDir = module_require h (normalizeJoin h rootDir ''src.js'')"

text \<open>Running a module's code with the \<open>require\<close> it was given.\<close>

primrec run_module ::
  "(string list \<Rightarrow> modules \<Rightarrow> outcome \<times> modules) \<Rightarrow> module_code \<Rightarrow> modules \<Rightarrow> outcome \<times> modules" where
  "run_module rq (MExports v) ms = (Inr v, ms)"
| "run_module rq (MThrow e) ms = (Inl e, ms)"
| "run_module rq (MRequire args k) ms = (case rq args ms of (r, ms') \<Rightarrow> run_module rq (k r) ms')"

text \<open>
  The engine ends a chain of nested calls that outgrows the call stack with a
  \<open>RangeError\<close>; this is how a circular import among side modules ends.
\<close>

definition stack_overflow :: jsval where
  "stack_overflow = Error ''Maximum call stack size exceeded''"

text \<open>
  The file name \<open>requireFromSideOutputs\<close> looks up: the specifier joined to the importing
  directory, with \<open>.js\<close> appended when \<open>path.extname\<close> finds no extension.
\<close>

definition side_filename :: "host \<Rightarrow> string \<Rightarrow> string \<Rightarrow> string" where
  "side_filename h dirname ident =
     (let filename = normalizeJoin h dirname ident
      in if path_extname h filename = [] then filename @ ''.js'' else filename)"

text \<open>
  \<open>wrapRequire\<close> and the \<open>requireFromSideOutputs\<close> it closes over. The first argument is
  the room left on the call stack. \<open>wrapRequire d h req dirname so\<close> is the proxy: applied
  to an argument list it returns or throws, and it may add instances to \<open>sideModules\<close>.
  \<open>requireFromSideOutputs\<close> returns \<open>null\<close> when it has nothing for the path.
\<close>

fun wrapRequire ::
  "nat \<Rightarrow> host \<Rightarrow> (string list \<Rightarrow> outcome) \<Rightarrow> string \<Rightarrow> outputs \<Rightarrow>
     string list \<Rightarrow> modules \<Rightarrow> outcome \<times> modules"
and requireFromSideOutputs ::
  "nat \<Rightarrow> host \<Rightarrow> string \<Rightarrow> outputs \<Rightarrow> string \<Rightarrow> modules \<Rightarrow> outcome \<times> modules" where
  "wrapRequire d h req dirname so argArray ms =
     (case argArray of
        [arg] \<Rightarrow>
          if arg = ''tslab'' then (Inr (tslab h), ms)
          else (case requireFromSideOutputs d h dirname so arg ms of
                  (Inl e, ms') \<Rightarrow> (Inl e, ms')
                | (Inr m, ms') \<Rightarrow>
                    if truthy m then (Inr m, ms')
                    else (req argArray, ms'))
      | _ \<Rightarrow> (req argArray, ms))"
| "requireFromSideOutputs d h dirname so ident ms =
     (let filename = side_filename h dirname ident
      in case ms filename of
           Some cached \<Rightarrow> (Inr (mod_exports cached), ms)
         | None \<Rightarrow>
            (case so filename of
               None \<Rightarrow> (Inr Null, ms)
             | Some src \<Rightarrow>
                (case d of
                   0 \<Rightarrow> (Inl stack_overflow, ms)
                 | Suc d' \<Rightarrow>
                    (case run_module
                            (wrapRequire d' h (module_require h filename)
                               (path_dirname h filename) so)
                            (module_compile h src filename) ms of
                       (Inl e, ms') \<Rightarrow> (Inl e, ms')
                     | (Inr v, ms') \<Rightarrow>
                         (Inr v, ms'(filename \<mapsto>
                            \<lparr>mod_filename = filename, mod_exports = v, compiled_from = src\<rparr>))))))"

text \<open>\<open>updateSideOutputs\<close>, on the two maps it is closed over.\<close>

fun updateSideOutputs :: "side_output list \<Rightarrow> outputs \<times> modules \<Rightarrow> outputs \<times> modules" where
  "updateSideOutputs [] c = c"
| "updateSideOutputs (out # outs) (so, ms) =
     updateSideOutputs outs
       ((so(so_path out \<mapsto> so_data out)),
        (if ms (so_path out) \<noteq> None then ms(so_path out := None) else ms))"

section \<open>Running a snippet\<close>

text \<open>
  Where the wrapped function stands when control comes back to the executor: it has
  returned, it has thrown, or it waits at an \<open>await\<close>.
\<close>

datatype body = Completed | Failed jsval | Suspended "outcome \<Rightarrow> snippet_code"

text \<open>
  Running snippet code up to its end or its next \<open>await\<close>, on the two things it can
  reach: the exports object (through the proxy) and, through \<open>require\<close>, the side modules.
\<close>

primrec run_snippet ::
  "realm \<Rightarrow> (string list \<Rightarrow> modules \<Rightarrow> outcome \<times> modules) \<Rightarrow> snippet_code \<Rightarrow>
     exports_object \<times> modules \<Rightarrow> body \<times> exports_object \<times> modules" where
  "run_snippet inh rq Return w = (Completed, w)"
| "run_snippet inh rq (Throw e) w = (Failed e, w)"
| "run_snippet inh rq (Require args k) w =
     (case rq args (snd w) of (r, ms') \<Rightarrow> run_snippet inh rq (k r) (fst w, ms'))"
| "run_snippet inh rq (DefineProperty prop attrs k) w =
     (case define_on_proxy inh (fst w) prop attrs of
        (Inl e, t') \<Rightarrow> run_snippet inh rq (k (Some e)) (t', snd w)
      | (Inr ok, t') \<Rightarrow> run_snippet inh rq (k None) (t', snd w))"
| "run_snippet inh rq (GetProperty prop k) w =
     run_snippet inh rq (k (get_property inh (fst w) prop)) w"
| "run_snippet inh rq (DeleteProperty prop k) w =
     run_snippet inh rq k (delete_property prop (fst w), snd w)"
| "run_snippet inh rq (SetPrototypeOf v k) w =
     (case setPrototypeOf v (fst w) of
        Inl e \<Rightarrow> run_snippet inh rq (k (Some e)) w
      | Inr t' \<Rightarrow> run_snippet inh rq (k None) (t', snd w))"
| "run_snippet inh rq (PreventExtensions k) w =
     run_snippet inh rq k (preventExtensions (fst w), snd w)"
| "run_snippet inh rq (Await k) w = (Suspended k, w)"

section \<open>The executor\<close>

text \<open>
  The promises made by \<open>resetInterruptPromise\<close>, in the order they were made; a promise is
  named by its position. None of them is ever resolved (the resolve function is dropped),
  so each is pending or rejected with a reason; \<open>handled\<close> says a handler is attached.
\<close>

record promise =
  rejection :: "jsval option"
  handled :: bool

text \<open>A call on the console the executor was created with.\<close>

datatype console_call = ConsoleLog "jsval list" | ConsoleError "jsval list"

text \<open>
  The variables \<open>createExecutor\<close> closes over. \<open>console\<close> is the list of calls made on
  the console so far, \<open>vm_runs\<close> the wrapped snippet texts \<open>execute\<close> has run so far.
\<close>

record executor =
  rootDir :: string
  sideOutputs :: outputs
  sideModules :: modules
  exports :: exports_object
  prevDecl :: string
  interruptPromise :: nat
  rejectInterruptPromise :: nat
  promises :: "promise list"
  console :: "console_call list"
  vm_runs :: "string list"

definition interrupted :: jsval where
  "interrupted = Error ''Interrupted asynchronously''"

text \<open>The reason a promise was rejected with, if it exists and was rejected.\<close>

definition promise_rejection :: "promise list \<Rightarrow> nat \<Rightarrow> jsval option" where
  "promise_rejection ps p = (if p < length ps then rejection (ps ! p) else None)"

text \<open>Calling the \<open>reject\<close> function of promise \<open>p\<close>; a settled promise stays as it is.\<close>

definition reject_promise :: "nat \<Rightarrow> jsval \<Rightarrow> promise list \<Rightarrow> promise list" where
  "reject_promise p reason ps =
     (if p < length ps \<and> rejection (ps ! p) = None
      then ps[p := (ps ! p)\<lparr>rejection := Some reason\<rparr>] else ps)"

text \<open>\<open>p.catch(() => {})\<close>.\<close>

definition catch_promise :: "nat \<Rightarrow> promise list \<Rightarrow> promise list" where
  "catch_promise p ps = (if p < length ps then ps[p := (ps ! p)\<lparr>handled := True\<rparr>] else ps)"

definition resetInterruptPromise :: "executor \<Rightarrow> executor" where
  "resetInterruptPromise st =
     (let p = length (promises st);
          ps = promises st @ [\<lparr>rejection = None, handled = False\<rparr>]
      in st\<lparr>interruptPromise := p, rejectInterruptPromise := p, promises := catch_promise p ps\<rparr>)"

definition interrupt :: "executor \<Rightarrow> executor" where
  "interrupt st =
     resetInterruptPromise
       (st\<lparr>promises := reject_promise (rejectInterruptPromise st) interrupted (promises st)\<rparr>)"

text \<open>The state \<open>createExecutor\<close> leaves behind.\<close>

definition createExecutor :: "string \<Rightarrow> executor" where
  "createExecutor dir =
     resetInterruptPromise
       \<lparr>rootDir = dir, sideOutputs = Map.empty, sideModules = Map.empty,
        exports = createExports,
        prevDecl = [], interruptPromise = 0, rejectInterruptPromise = 0, promises = [],
        console = [], vm_runs = []\<rparr>"

text \<open>The \<open>require\<close> handed to snippets: \<open>wrapRequire(createRequire(rootDir), rootDir, ...)\<close>.\<close>

definition snippet_require ::
  "host \<Rightarrow> executor \<Rightarrow> string list \<Rightarrow> modules \<Rightarrow> outcome \<times> modules" where
  "snippet_require h st =
     wrapRequire (stack h) h (createRequire h (rootDir st)) (rootDir st) (sideOutputs st)"

definition print_diagnostic :: "diagnostic \<Rightarrow> console_call" where
  "print_diagnostic diag =
     ConsoleError
       [Str ''%s%d:%d - %s'',
        Str (if truthy_str (fileName diag) then or_empty (fileName diag) @ '' '' else []),
        Num (start_line diag + 1),
        Num (start_character diag + 1),
        Str (messageText diag)]"

fun printDiagnostics :: "diagnostic list \<Rightarrow> executor \<Rightarrow> executor" where
  "printDiagnostics [] st = st"
| "printDiagnostics (diag # ds) st =
     printDiagnostics ds (st\<lparr>console := console st @ [print_diagnostic diag]\<rparr>)"

text \<open>The text \<open>execute\<close> hands to \<open>vm.runInThisContext\<close>.\<close>

definition wrapped :: "converted \<Rightarrow> string" where
  "wrapped c =
     (if hasToplevelAwait c then ''(async function(exports, require) { ''
      else ''(function(exports, require) { '')
     @ or_empty (conv_output c) @ [CHR 0x0A] @ ''})(__tslab__.exports, __tslab__.require)''"

text \<open>
  Where a call of \<open>execute\<close> stands. \<open>Resolved b\<close>: the promise it returned is fulfilled
  with \<open>b\<close>. \<open>Rejected e\<close>: an exception \<open>e\<close> left the function, so the promise it returned
  is rejected. \<open>Awaiting c b p\<close>: it is at \<open>await Promise.race([promise, interruptPromise])\<close>
  for the conversion result \<open>c\<close>, with the body's promise in state \<open>b\<close> and \<open>p\<close> the
  interrupt promise it races against.
\<close>

datatype execution = Resolved bool | Rejected jsval | Awaiting converted body nat

text \<open>The two \<open>catch\<close> blocks of \<open>execute\<close>: \<open>console.error(e); return false\<close>.\<close>

definition report_error :: "jsval \<Rightarrow> executor \<Rightarrow> execution \<times> executor" where
  "report_error e st = (Resolved False, st\<lparr>console := console st @ [ConsoleError [e]]\<rparr>)"

text \<open>The end of \<open>execute\<close>, from \<open>prevDecl = converted.declOutput || ''\<close> on.\<close>

definition finish_execute :: "host \<Rightarrow> converted \<Rightarrow> executor \<Rightarrow> execution \<times> executor" where
  "finish_execute h c st =
     (let st1 = st\<lparr>prevDecl := or_empty (declOutput c)\<rparr>;
          name = or_empty (lastExpressionVar c)
      in if truthy_str (lastExpressionVar c) \<and>
            not_nullish (get_property (inherits h) (exports st1) name)
         then (let ret = get_property (inherits h) (exports st1) name
               in (Resolved True,
                   st1\<lparr>exports := delete_property name (exports st1),
                       console := console st1 @ [ConsoleLog [ret]]\<rparr>))
         else (Resolved True, st1))"

text \<open>\<open>if (converted.sideOutputs) updateSideOutputs(converted.sideOutputs)\<close>.\<close>

definition merge_sideOutputs :: "converted \<Rightarrow> executor \<Rightarrow> executor" where
  "merge_sideOutputs c st =
     (case conv_sideOutputs c of
        None \<Rightarrow> st
      | Some outs \<Rightarrow>
          (case updateSideOutputs outs (sideOutputs st, sideModules st) of
             (so, ms) \<Rightarrow> st\<lparr>sideOutputs := so, sideModules := ms\<rparr>))"

text \<open>
  The call of \<open>vm.runInThisContext\<close> on the wrapped text: the body runs to its end or to
  its first \<open>await\<close>.
\<close>

definition run_body :: "host \<Rightarrow> converted \<Rightarrow> executor \<Rightarrow> body \<times> executor" where
  "run_body h c st =
     (case run_snippet (inherits h) (snippet_require h st) (runInThisContext h (wrapped c))
             (exports st, sideModules st) of
        (b, e, ms) \<Rightarrow>
          (b, st\<lparr>exports := e, sideModules := ms, vm_runs := vm_runs st @ [wrapped c]\<rparr>))"

text \<open>
  \<open>execute\<close> up to the point where it returns or reaches \<open>await Promise.race(...)\<close>. With
  \<open>hasToplevelAwait\<close> the wrapped function is \<open>async\<close>: what it does before its first
  \<open>await\<close> happens here, and whatever it does, also a throw, shows in its promise only.
\<close>

definition execute :: "host \<Rightarrow> string \<Rightarrow> executor \<Rightarrow> execution \<times> executor" where
  "execute h src st =
     (let meta = getCodeMetadata h src in
      if truthy_str (meta_module meta) then
        (case (if meta_mode meta = ''browser'' then browser_addModule h else node_addModule h)
                (or_empty (meta_module meta)) src meta of
           Inl e \<Rightarrow> (Rejected e, st)
         | Inr ds \<Rightarrow> (Resolved True, printDiagnostics ds st))
      else if meta_mode meta = ''browser'' then (Resolved True, st)
      else
        (case node_convert h (prevDecl st) src of
           Inl e \<Rightarrow> (Rejected e, st)
         | Inr c \<Rightarrow>
            (let st1 = merge_sideOutputs c st
             in if diagnostics c \<noteq> [] then
                  (Resolved False, printDiagnostics (diagnostics c) st1)
                else if \<not> truthy_str (conv_output c) then
                  (Resolved True, st1\<lparr>prevDecl := or_empty (declOutput c)\<rparr>)
                else
                  (case run_body h c st1 of
                     (b, st2) \<Rightarrow>
                       if hasToplevelAwait c then
                         (Awaiting c b (interruptPromise st2), st2)
                       else
                         (case b of
                            Failed err \<Rightarrow> report_error err st2
                          | _ \<Rightarrow> finish_execute h c st2)))))"

text \<open>
  What happens while \<open>execute\<close> waits: somebody calls \<open>interrupt()\<close>, or the promise the
  body waits for settles and the body runs on.
\<close>

datatype event = Interrupt | Settle outcome

text \<open>
  The promise the body waits for settles with \<open>r\<close>: a suspended body runs on from its
  \<open>await\<close>, to its end or to its next \<open>await\<close>. A body that has ended stays as it is.
\<close>

fun resume :: "host \<Rightarrow> outcome \<Rightarrow> body \<Rightarrow> executor \<Rightarrow> body \<times> executor" where
  "resume h r (Suspended k) st =
     (case run_snippet (inherits h) (snippet_require h st) (k r)
             (exports st, sideModules st) of
        (b, e, ms) \<Rightarrow> (b, st\<lparr>exports := e, sideModules := ms\<rparr>))"
| "resume h r b st = (b, st)"

text \<open>
  \<open>execute\<close> from \<open>await Promise.race([promise, interruptPromise])\<close> on, under the events
  that follow. The race is decided by the first of its two promises to settle, the body's
  promise coming first; until then the events are taken one by one.
\<close>

fun await_race ::
  "host \<Rightarrow> event list \<Rightarrow> converted \<Rightarrow> body \<Rightarrow> nat \<Rightarrow> executor \<Rightarrow> execution \<times> executor" where
  "await_race h evs c Completed p st = finish_execute h c st"
| "await_race h evs c (Failed e) p st = report_error e st"
| "await_race h evs c (Suspended k) p st =
     (case promise_rejection (promises st) p of
        Some e \<Rightarrow> report_error e st
      | None \<Rightarrow>
         (case evs of
            [] \<Rightarrow> (Awaiting c (Suspended k) p, st)
          | Interrupt # evs' \<Rightarrow> await_race h evs' c (Suspended k) p (interrupt st)
          | Settle r # evs' \<Rightarrow>
              (case resume h r (Suspended k) st of
                 (b, st') \<Rightarrow> await_race h evs' c b p st')))"

text \<open>A call of \<open>execute\<close> followed by the events that arrive while it waits.\<close>

definition execute_then :: "host \<Rightarrow> string \<Rightarrow> event list \<Rightarrow> executor \<Rightarrow> execution \<times> executor" where
  "execute_then h src evs st =
     (case execute h src st of
        (Awaiting c b p, st') \<Rightarrow> await_race h evs c b p st'
      | r \<Rightarrow> r)"

definition reset :: "executor \<Rightarrow> executor" where
  "reset st =
     (let st1 = st\<lparr>prevDecl := []\<rparr>
      in fold (\<lambda>name s. s\<lparr>exports := delete_property name (exports s)\<rparr>)
           (getOwnPropertyNames (exports st1)) st1)"

section \<open>Notions used to state the properties\<close>

text \<open>The body's promise after the promises it waits for have settled, one after the other.\<close>

fun settle_all :: "host \<Rightarrow> outcome list \<Rightarrow> body \<Rightarrow> executor \<Rightarrow> body \<times> executor" where
  "settle_all h [] b st = (b, st)"
| "settle_all h (r # rs) b st = (case resume h r b st of (b', st') \<Rightarrow> settle_all h rs b' st')"

text \<open>
  The snippet is Node code outside a module, and converting it against the current
  \<open>prevDecl\<close> returns \<open>c\<close>.
\<close>

definition converts :: "host \<Rightarrow> string \<Rightarrow> executor \<Rightarrow> converted \<Rightarrow> bool" where
  "converts h src st c =
     (\<not> truthy_str (meta_module (getCodeMetadata h src)) \<and>
      meta_mode (getCodeMetadata h src) \<noteq> ''browser'' \<and>
      node_convert h (prevDecl st) src = Inr c)"



text \<open>Every cached instance was compiled from the source text now recorded for its path.\<close>

definition coherent :: "outputs \<Rightarrow> modules \<Rightarrow> bool" where
  "coherent so ms = (\<forall>p m. ms p = Some m \<longrightarrow> so p = Some (compiled_from m))"

text \<open>The source text a list of side outputs records for each path: the last one wins.\<close>

definition recorded :: "side_output list \<Rightarrow> outputs" where
  "recorded outs = map_of (rev (map (\<lambda>out. (so_path out, so_data out)) outs))"

text \<open>The promises that have not been rejected.\<close>

definition pending_promises :: "promise list \<Rightarrow> nat list" where
  "pending_promises ps = filter (\<lambda>p. rejection (ps ! p) = None) [0..<length ps]"

text \<open>
  The interrupt promise is the one pending promise, \<open>rejectInterruptPromise\<close> is its reject
  function, and every promise has a handler.
\<close>

definition armed :: "executor \<Rightarrow> bool" where
  "armed st =
     (pending_promises (promises st) = [interruptPromise st] \<and>
      rejectInterruptPromise st = interruptPromise st \<and>
      list_all handled (promises st))"

section \<open>Example inputs\<close>

text \<open>
  The realm as the engine starts it: \<open>Object.prototype\<close> has its standard function-valued
  properties, all writable, and the \<open>__proto__\<close> accessor; nothing else is inherited.
\<close>

definition object_prototype_properties :: "(string \<times> jsval) list" where
  "object_prototype_properties =
     [(''constructor'', Builtin ''Object''),
      (''__defineGetter__'', Builtin ''__defineGetter__''),
      (''__defineSetter__'', Builtin ''__defineSetter__''),
      (''hasOwnProperty'', Builtin ''hasOwnProperty''),
      (''__lookupGetter__'', Builtin ''__lookupGetter__''),
      (''__lookupSetter__'', Builtin ''__lookupSetter__''),
      (''isPrototypeOf'', Builtin ''isPrototypeOf''),
      (''propertyIsEnumerable'', Builtin ''propertyIsEnumerable''),
      (''toString'', Builtin ''toString''),
      (''valueOf'', Builtin ''valueOf''),
      (''toLocaleString'', Builtin ''toLocaleString'')]"

definition standard_inherits :: realm where
  "standard_inherits p name =
     (if p = ObjectPrototype then
        (if name = ''__proto__'' then InheritedProto
         else (case map_of object_prototype_properties name of
                 Some f \<Rightarrow> InheritedData f True
               | None \<Rightarrow> NotInherited))
      else NotInherited)"

text \<open>
  A host for concrete runs: every snippet is classified as Node code outside a module, the
  converter, the snippet behaviour and the module behaviour are given, paths are joined
  with a slash, and the host's own \<open>require\<close> finds nothing.
\<close>

definition example_host ::
  "(string \<Rightarrow> jsval + converted) \<Rightarrow> (string \<Rightarrow> snippet_code) \<Rightarrow> (string \<Rightarrow> module_code) \<Rightarrow> host" where
  "example_host conv vm mc =
     \<lparr>getCodeMetadata = (\<lambda>src. \<lparr>meta_mode = ''node'', meta_module = None\<rparr>),
      node_convert = (\<lambda>decl. conv),
      node_addModule = (\<lambda>name src meta. Inr []),
      browser_addModule = (\<lambda>name src meta. Inr []),
      normalizeJoin = (\<lambda>dir ident. dir @ ''/'' @ ident),
      path_extname = (\<lambda>file. []),
      path_dirname = (\<lambda>file. ''/lab''),
      module_require = (\<lambda>file args. Inl (Error ''Cannot find module'')),
      tslab = Obj 0,
      module_compile = (\<lambda>src file. mc src),
      runInThisContext = vm,
      stack = 8,
      inherits = standard_inherits\<rparr>"

text \<open>A conversion result with a body, no diagnostics and declaration output \<open>decl\<close>.\<close>

definition example_converted :: "string \<Rightarrow> bool \<Rightarrow> string option \<Rightarrow> converted" where
  "example_converted decl aw lastVar =
     \<lparr>conv_output = Some ''body'', declOutput = Some decl, diagnostics = [],
      hasToplevelAwait = aw, conv_sideOutputs = None, lastExpressionVar = lastVar\<rparr>"

text \<open>The executor right after \<open>createExecutor\<close>.\<close>

definition example_executor :: executor where
  "example_executor = createExecutor ''/lab''"

definition throwing_host :: host where
  "throwing_host =
     example_host (\<lambda>src. Inr (example_converted ''declare const x: number;'' False None))
       (\<lambda>text. Throw (Error ''my error'')) (\<lambda>src. MExports Undefined)"

definition awaiting_host :: host where
  "awaiting_host =
     example_host (\<lambda>src. Inr (example_converted ''declare const x: number;'' True None))
       (\<lambda>text. Await (\<lambda>r. case r of Inl e \<Rightarrow> Throw e | Inr v \<Rightarrow> Return))
       (\<lambda>src. MExports Undefined)"

definition display_host :: "jsval \<Rightarrow> host" where
  "display_host v =
     example_host
       (\<lambda>src. Inr (example_converted ''declare let x: number;'' False (Some ''tsLastExpr'')))
       (\<lambda>text. DefineProperty ''x'' (value_descriptor (Num 10))
                 (\<lambda>thrown. DefineProperty ''tsLastExpr'' (value_descriptor v)
                    (\<lambda>thrown. Return)))
       (\<lambda>src. MExports Undefined)"

definition inheriting_host :: host where
  "inheriting_host =
     example_host
       (\<lambda>src. Inr (example_converted ''declare let x: number;'' False (Some ''toString'')))
       (\<lambda>text. Return) (\<lambda>src. MExports Undefined)"

definition failing_converted :: converted where
  "failing_converted =
     \<lparr>conv_output = None, declOutput = None,
      diagnostics =
        [\<lparr>fileName = None, start_line = 0, start_character = 8,
          messageText = ''Cannot find name y.''\<rparr>],
      hasToplevelAwait = False,
      conv_sideOutputs = Some [\<lparr>so_path = ''/lab/a.js'', so_data = ''exports.a = 1''\<rparr>],
      lastExpressionVar = None\<rparr>"

definition failing_host :: host where
  "failing_host =
     example_host (\<lambda>src. Inr failing_converted) (\<lambda>text. Return) (\<lambda>src. MExports Undefined)"


definition module_host :: host where
  "module_host =
     example_host (\<lambda>src. Inl Null) (\<lambda>text. Return) (\<lambda>src. MExports (Str src))"

definition zero_host :: host where
  "zero_host =
     example_host (\<lambda>src. Inl Null) (\<lambda>text. Return) (\<lambda>src. MExports (Num 0))"

text \<open>A side module with falsy exports: its recorded source and its cached instance.\<close>

definition zero_outputs :: outputs where
  "zero_outputs = [''/lab/zero.js'' \<mapsto> ''module.exports = 0'']"

definition zero_instance :: node_module where
  "zero_instance =
     \<lparr>mod_filename = ''/lab/zero.js'', mod_exports = Num 0,
      compiled_from = ''module.exports = 0''\<rparr>"

definition zero_modules :: modules where
  "zero_modules = [''/lab/zero.js'' \<mapsto> zero_instance]"

text \<open>Importing the same specifier \<open>n\<close> times in a row, with the outcomes in order.\<close>

fun require_times ::
  "nat \<Rightarrow> nat \<Rightarrow> host \<Rightarrow> string \<Rightarrow> outputs \<Rightarrow> string \<Rightarrow> modules \<Rightarrow> outcome list \<times> modules" where
  "require_times 0 d h dirname so ident ms = ([], ms)"
| "require_times (Suc n) d h dirname so ident ms =
     (case requireFromSideOutputs d h dirname so ident ms of
        (r, ms') \<Rightarrow>
          (case require_times n d h dirname so ident ms' of (rs, ms'') \<Rightarrow> (r # rs, ms'')))"

declare wrapRequire.simps [simp del] requireFromSideOutputs.simps [simp del]


section \<open>The exports object: defining and clearing\<close>

lemma fold_delete_exports:
  "fold (\<lambda>name s. s\<lparr>exports := delete_property name (exports s)\<rparr>) ns st =
     st\<lparr>exports := fold delete_property ns (exports st)\<rparr>"
  by (induction ns arbitrary: st) simp_all

lemma fold_delete_own:
  "fold delete_property ns t = t\<lparr>own := fold AList.delete ns (own t)\<rparr>"
  by (induction ns arbitrary: t) (simp_all add: delete_property_def)

lemma fold_delete_all:
  "fst ` set e \<subseteq> set ns \<Longrightarrow> fold AList.delete ns e = []"
proof (induction ns arbitrary: e)
  case Nil
  then show ?case by simp
next
  case (Cons n ns)
  have "fst ` set (AList.delete n e) \<subseteq> set ns"
    using Cons.prems by (auto simp: AList.delete_eq)
  then show ?case using Cons.IH by simp
qed

lemma getOwnPropertyNames_set: "set (getOwnPropertyNames t) = fst ` set (own t)"
  by (auto simp: getOwnPropertyNames_def)







text \<open>
  C10: \<open>reset\<close> leaves the exports object without any binding and sets \<open>prevDecl\<close> to the
  empty text, and it changes nothing else: the recorded side-module sources and the cached
  module instances, like every other variable of the executor, are as before the call.
\<close>

theorem reset_clears:
  "own (exports (reset st)) = [] \<and> getOwnPropertyNames (exports (reset st)) = [] \<and>
   prevDecl (reset st) = [] \<and>
   sideOutputs (reset st) = sideOutputs st \<and> sideModules (reset st) = sideModules st \<and>
   reset st = st\<lparr>prevDecl := [], exports := (exports st)\<lparr>own := []\<rparr>\<rparr>"
proof -
  have "fold AList.delete (getOwnPropertyNames (exports st)) (own (exports st)) = []"
    by (rule fold_delete_all) (simp add: getOwnPropertyNames_set)
  then have "reset st = st\<lparr>prevDecl := [], exports := (exports st)\<lparr>own := []\<rparr>\<rparr>"
    by (simp add: reset_def Let_def fold_delete_exports fold_delete_own)
  then show ?thesis by (simp add: getOwnPropertyNames_def)
qed

section \<open>Frame lemmas\<close>

lemma printDiagnostics_eq:
  "printDiagnostics ds st = st\<lparr>console := console st @ map print_diagnostic ds\<rparr>"
  by (induction ds arbitrary: st) simp_all

lemma resume_frame:
  "\<exists>e ms. snd (resume h r b st) = st\<lparr>exports := e, sideModules := ms\<rparr>"
proof (cases b)
  case (Suspended k)
  then show ?thesis by (auto split: prod.splits)
next
  case Completed
  have "st = st\<lparr>exports := exports st, sideModules := sideModules st\<rparr>" by simp
  then show ?thesis using Completed by (metis resume.simps(2) snd_conv)
next
  case (Failed x)
  have "st = st\<lparr>exports := exports st, sideModules := sideModules st\<rparr>" by simp
  then show ?thesis using Failed by (metis resume.simps(3) snd_conv)
qed

lemma resume_fields:
  "promises (snd (resume h r b st)) = promises st"
  "interruptPromise (snd (resume h r b st)) = interruptPromise st"
  "rejectInterruptPromise (snd (resume h r b st)) = rejectInterruptPromise st"
  "prevDecl (snd (resume h r b st)) = prevDecl st"
  "console (snd (resume h r b st)) = console st"
  "sideOutputs (snd (resume h r b st)) = sideOutputs st"
  using resume_frame[of h r b st] by auto

lemma settle_all_fields:
  "promises (snd (settle_all h rs b st)) = promises st \<and>
   interruptPromise (snd (settle_all h rs b st)) = interruptPromise st \<and>
   rejectInterruptPromise (snd (settle_all h rs b st)) = rejectInterruptPromise st \<and>
   prevDecl (snd (settle_all h rs b st)) = prevDecl st \<and>
   console (snd (settle_all h rs b st)) = console st \<and>
   sideOutputs (snd (settle_all h rs b st)) = sideOutputs st"
proof (induction rs arbitrary: b st)
  case Nil
  then show ?case by simp
next
  case (Cons r rs)
  obtain b' st' where r: "resume h r b st = (b', st')" by (cases "resume h r b st")
  show ?case using Cons.IH[of b' st'] resume_fields[of h r b st] r by simp
qed

lemma settle_all_ended:
  "settle_all h rs Completed st = (Completed, st)"
  "settle_all h rs (Failed e) st = (Failed e, st)"
  by (induction rs) simp_all

lemma await_race_settles:
  assumes "promise_rejection (promises st) p = None"
  shows "await_race h (map Settle rs @ evs) c b p st =
           (case settle_all h rs b st of (b', st') \<Rightarrow> await_race h evs c b' p st')"
  using assms
proof (induction rs arbitrary: b st)
  case Nil
  then show ?case by simp
next
  case (Cons r rs)
  show ?case
  proof (cases b)
    case Completed
    then show ?thesis by (simp add: settle_all_ended)
  next
    case (Failed e)
    then show ?thesis by (simp add: settle_all_ended)
  next
    case (Suspended k)
    obtain b' st' where r: "resume h r (Suspended k) st = (b', st')"
      by (cases "resume h r (Suspended k) st")
    have "promises st' = promises st" using resume_fields(1)[of h r "Suspended k" st] r by simp
    then have "promise_rejection (promises st') p = None" using Cons.prems by simp
    from Cons.IH[OF this, of b'] show ?thesis
      using Suspended r Cons.prems by (simp del: resume.simps)
  qed
qed

lemma merge_sideOutputs_fields:
  "promises (merge_sideOutputs c st) = promises st"
  "interruptPromise (merge_sideOutputs c st) = interruptPromise st"
  "rejectInterruptPromise (merge_sideOutputs c st) = rejectInterruptPromise st"
  "prevDecl (merge_sideOutputs c st) = prevDecl st"
  "console (merge_sideOutputs c st) = console st"
  "exports (merge_sideOutputs c st) = exports st"
  "vm_runs (merge_sideOutputs c st) = vm_runs st"
  by (simp_all add: merge_sideOutputs_def split: option.splits prod.splits)

lemma run_body_fields:
  "promises (snd (run_body h c st)) = promises st"
  "interruptPromise (snd (run_body h c st)) = interruptPromise st"
  "rejectInterruptPromise (snd (run_body h c st)) = rejectInterruptPromise st"
  "prevDecl (snd (run_body h c st)) = prevDecl st"
  "console (snd (run_body h c st)) = console st"
  "sideOutputs (snd (run_body h c st)) = sideOutputs st"
  "vm_runs (snd (run_body h c st)) = vm_runs st @ [wrapped c]"
  by (simp_all add: run_body_def split: prod.splits)

lemma execute_converts:
  assumes "converts h src st c"
  shows "execute h src st =
     (if diagnostics c \<noteq> [] then
        (Resolved False, printDiagnostics (diagnostics c) (merge_sideOutputs c st))
      else if \<not> truthy_str (conv_output c) then
        (Resolved True, (merge_sideOutputs c st)\<lparr>prevDecl := or_empty (declOutput c)\<rparr>)
      else if hasToplevelAwait c then
        (Awaiting c (fst (run_body h c (merge_sideOutputs c st)))
           (interruptPromise st), snd (run_body h c (merge_sideOutputs c st)))
      else (case fst (run_body h c (merge_sideOutputs c st)) of
              Failed err \<Rightarrow> report_error err (snd (run_body h c (merge_sideOutputs c st)))
            | _ \<Rightarrow> finish_execute h c (snd (run_body h c (merge_sideOutputs c st)))))"
  using assms
  by (simp add: execute_def converts_def Let_def run_body_fields merge_sideOutputs_fields
        case_prod_beta)

section \<open>Interrupt promises\<close>

lemma pending_promises_append:
  "pending_promises (ps @ [x]) =
     pending_promises ps @ (if rejection x = None then [length ps] else [])"
proof -
  have "filter (\<lambda>p. rejection ((ps @ [x]) ! p) = None) [0..<length ps] =
        filter (\<lambda>p. rejection (ps ! p) = None) [0..<length ps]"
    by (rule filter_cong) (simp_all add: nth_append)
  then show ?thesis by (simp add: pending_promises_def)
qed

lemma pending_promises_catch:
  "pending_promises (catch_promise n ps) = pending_promises ps"
proof -
  have "filter (\<lambda>p. rejection (catch_promise n ps ! p) = None) [0..<length ps] =
        filter (\<lambda>p. rejection (ps ! p) = None) [0..<length ps]"
    by (rule filter_cong) (simp_all add: catch_promise_def nth_list_update)
  moreover have "length (catch_promise n ps) = length ps" by (simp add: catch_promise_def)
  ultimately show ?thesis by (simp add: pending_promises_def)
qed

lemma pending_promises_reject:
  "pending_promises (reject_promise p e ps) = filter (\<lambda>i. i \<noteq> p) (pending_promises ps)"
proof -
  have "filter (\<lambda>i. rejection (reject_promise p e ps ! i) = None) [0..<length ps] =
        filter (\<lambda>i. i \<noteq> p \<and> rejection (ps ! i) = None) [0..<length ps]"
    by (rule filter_cong) (auto simp: reject_promise_def nth_list_update)
  moreover have "length (reject_promise p e ps) = length ps" by (simp add: reject_promise_def)
  ultimately show ?thesis by (simp add: pending_promises_def conj_commute)
qed

lemma pending_promise_rejection:
  "p \<in> set (pending_promises ps) \<longleftrightarrow> p < length ps \<and> promise_rejection ps p = None"
  by (auto simp: pending_promises_def promise_rejection_def)

lemma armed_unrejected:
  assumes "armed st"
  shows "interruptPromise st < length (promises st)"
    and "promise_rejection (promises st) (interruptPromise st) = None"
proof -
  have "interruptPromise st \<in> set (pending_promises (promises st))"
    using assms by (simp add: armed_def)
  then show "interruptPromise st < length (promises st)"
    and "promise_rejection (promises st) (interruptPromise st) = None"
    by (simp_all add: pending_promise_rejection)
qed

lemma catch_promise_last:
  "catch_promise (length ps) (ps @ [x]) = ps @ [x\<lparr>handled := True\<rparr>]"
  by (simp add: catch_promise_def)

lemma interrupt_eq:
  "interrupt st =
     st\<lparr>interruptPromise := length (promises st),
        rejectInterruptPromise := length (promises st),
        promises := reject_promise (rejectInterruptPromise st) interrupted (promises st)
                      @ [\<lparr>rejection = None, handled = True\<rparr>]\<rparr>"
proof -
  have len: "length (reject_promise p e ps) = length ps" for p e ps
    by (simp add: reject_promise_def)
  show ?thesis
    using catch_promise_last[of "reject_promise (rejectInterruptPromise st) interrupted (promises st)"]
    by (simp add: interrupt_def resetInterruptPromise_def Let_def len)
qed

lemma interrupt_armed:
  assumes "armed st"
  shows "armed (interrupt st)"
proof -
  let ?ps = "reject_promise (interruptPromise st) interrupted (promises st)"
  have len: "length ?ps = length (promises st)" by (simp add: reject_promise_def)
  have "pending_promises ?ps = []"
    using assms by (simp add: pending_promises_reject armed_def)
  then have p: "pending_promises (?ps @ [\<lparr>rejection = None, handled = True\<rparr>]) = [length (promises st)]"
    by (simp add: pending_promises_append len)
  have "list_all handled ?ps"
    using assms
    by (auto simp: armed_def reject_promise_def list_all_iff dest!: set_update_subset_insert[THEN subsetD])
  then show ?thesis using assms p by (simp add: interrupt_eq armed_def)
qed

lemma interrupt_rejects:
  assumes "armed st"
  shows "promise_rejection (promises (interrupt st)) (interruptPromise st) = Some interrupted"
  using armed_unrejected[OF assms] assms
  by (simp add: interrupt_eq armed_def promise_rejection_def reject_promise_def nth_append)

lemma createExecutor_armed: "armed (createExecutor dir)"
  using catch_promise_last[of "[]"]
  by (simp add: createExecutor_def resetInterruptPromise_def armed_def pending_promises_def
        Let_def)

section \<open>Outcomes of execute\<close>

lemma armed_frame:
  assumes "promises st' = promises st" "interruptPromise st' = interruptPromise st"
    "rejectInterruptPromise st' = rejectInterruptPromise st"
  shows "armed st' = armed st"
  using assms by (simp add: armed_def)

lemma resume_armed: "armed (snd (resume h r b st)) = armed st"
  by (rule armed_frame) (simp_all add: resume_fields)





lemma execute_then_converts:
  assumes "converts h src st c" and "diagnostics c = []" and "truthy_str (conv_output c)"
    and "run_body h c (merge_sideOutputs c st) = (b, st2)"
  shows "execute_then h src evs st =
     (if hasToplevelAwait c then await_race h evs c b (interruptPromise st) st2
      else (case b of Failed err \<Rightarrow> report_error err st2 | _ \<Rightarrow> finish_execute h c st2))"
  using assms
  by (cases b) (simp_all add: execute_then_def execute_converts finish_execute_def
      report_error_def Let_def)

lemma run_body_armed:
  assumes "run_body h c (merge_sideOutputs c st) = (b, st2)"
  shows "armed st2 = armed st"
    and "interruptPromise st2 = interruptPromise st"
    and "prevDecl st2 = prevDecl st"
    and "console st2 = console st"
    and "promises st2 = promises st"
proof -
  have e: "st2 = snd (run_body h c (merge_sideOutputs c st))" using assms by simp
  show "armed st2 = armed st"
    unfolding e by (rule armed_frame) (simp_all add: run_body_fields merge_sideOutputs_fields)
  show "interruptPromise st2 = interruptPromise st"
    and "prevDecl st2 = prevDecl st" and "console st2 = console st"
    and "promises st2 = promises st"
    unfolding e by (simp_all add: run_body_fields merge_sideOutputs_fields)
qed

lemma example_executor_armed: "armed example_executor"
  by (simp add: example_executor_def createExecutor_armed)

lemma example_executor_fields:
  "prevDecl example_executor = []" "console example_executor = []"
  "exports example_executor = createExports" "sideModules example_executor = Map.empty"
  "sideOutputs example_executor = Map.empty" "rootDir example_executor = ''/lab''"
  "vm_runs example_executor = []"
  "interruptPromise example_executor = 0"
  by (simp_all add: example_executor_def createExecutor_def resetInterruptPromise_def Let_def)

text \<open>
  C1, as the code has it. Converting the snippet returns no diagnostics and a body, and the
  body fails at run time: it throws while the wrapped function is invoked, or (with
  top-level await) its promise is rejected, at once or after the promises it waited for
  have settled. Then \<open>execute\<close> hands the error to \<open>console.error\<close> and returns false, and
  \<open>prevDecl\<close> is what it was before the call: the declaration output of the failed snippet
  is not taken over.
\<close>

theorem runtime_failure_keeps_prevDecl:
  assumes "converts h src st c" and "diagnostics c = []" and "truthy_str (conv_output c)"
    and "run_body h c (merge_sideOutputs c st) = (b, st2)"
    and "settle_all h rs b st2 = (Failed e, st3)"
    and "(\<not> hasToplevelAwait c \<and> rs = []) \<or> (hasToplevelAwait c \<and> armed st)"
  shows "execute_then h src (map Settle rs @ evs) st =
           (Resolved False, st3\<lparr>console := console st @ [ConsoleError [e]]\<rparr>) \<and>
         prevDecl st3 = prevDecl st"
proof -
  have f3: "prevDecl st3 = prevDecl st2" "console st3 = console st2"
    using settle_all_fields[of h rs b st2] assms(5) by simp_all
  have f2: "prevDecl st2 = prevDecl st" "console st2 = console st"
    using run_body_armed[OF assms(4)] by simp_all
  from assms(6) show ?thesis
  proof
    assume s: "\<not> hasToplevelAwait c \<and> rs = []"
    then have "b = Failed e" "st3 = st2" using assms(5) by simp_all
    then show ?thesis
      using s f2 execute_then_converts[OF assms(1-4), of evs]
      by (simp add: report_error_def)
  next
    assume a: "hasToplevelAwait c \<and> armed st"
    have "promise_rejection (promises st2) (interruptPromise st) = None"
      using armed_unrejected(2)[of st] a run_body_armed(5)[OF assms(4)] by simp
    then have "await_race h (map Settle rs @ evs) c b (interruptPromise st) st2 =
               report_error e st3"
      using assms(5) by (simp add: await_race_settles)
    then show ?thesis
      using a f2 f3 execute_then_converts[OF assms(1-4), of "map Settle rs @ evs"]
      by (simp add: report_error_def)
  qed
qed

lemma throwing_host_converts:
  "converts throwing_host src example_executor
     (example_converted ''declare const x: number;'' False None)"
  by (simp add: converts_def throwing_host_def example_host_def)

lemma throwing_host_run_body:
  "run_body throwing_host (example_converted ''declare const x: number;'' False None)
     (merge_sideOutputs (example_converted ''declare const x: number;'' False None)
        example_executor) =
   (Failed (Error ''my error''),
    example_executor\<lparr>vm_runs := [wrapped (example_converted ''declare const x: number;'' False None)]\<rparr>)"
  by (simp add: run_body_def merge_sideOutputs_def example_converted_def throwing_host_def
        example_host_def example_executor_fields)

text \<open>
  C1 as stated fails: a snippet that converts without diagnostics to a body that throws
  leaves \<open>prevDecl\<close> different from the declaration output the converter returned.
\<close>

theorem runtime_failure_counterexample:
  "converts throwing_host ''throw new Error()'' example_executor
     (example_converted ''declare const x: number;'' False None) \<and>
   fst (run_body throwing_host (example_converted ''declare const x: number;'' False None)
     (merge_sideOutputs (example_converted ''declare const x: number;'' False None)
        example_executor)) = Failed (Error ''my error'') \<and>
   fst (execute throwing_host ''throw new Error()'' example_executor) = Resolved False \<and>
   prevDecl (snd (execute throwing_host ''throw new Error()'' example_executor)) \<noteq>
     or_empty (declOutput (example_converted ''declare const x: number;'' False None))"
  using execute_converts [OF throwing_host_converts, of "''throw new Error()''"]
  by (simp add: throwing_host_converts throwing_host_run_body report_error_def
        example_executor_fields)
    (simp add: example_converted_def)

lemma awaiting_host_converts:
  "converts awaiting_host src example_executor
     (example_converted ''declare const x: number;'' True None)"
  by (simp add: converts_def awaiting_host_def example_host_def)

lemma awaiting_host_run_body:
  "run_body awaiting_host (example_converted ''declare const x: number;'' True None)
     (merge_sideOutputs (example_converted ''declare const x: number;'' True None)
        example_executor) =
   (Suspended (\<lambda>r. case r of Inl e \<Rightarrow> Throw e | Inr v \<Rightarrow> Return),
    example_executor\<lparr>vm_runs := [wrapped (example_converted ''declare const x: number;'' True None)]\<rparr>)"
  by (simp add: run_body_def merge_sideOutputs_def example_converted_def awaiting_host_def
        example_host_def example_executor_fields)

lemma awaiting_host_settle:
  "settle_all awaiting_host [Inl (Str ''Good Bye Promise'')]
     (Suspended (\<lambda>r. case r of Inl e \<Rightarrow> Throw e | Inr v \<Rightarrow> Return))
     (example_executor\<lparr>vm_runs := [wrapped (example_converted ''declare const x: number;'' True None)]\<rparr>) =
   (Failed (Str ''Good Bye Promise''),
    example_executor\<lparr>vm_runs := [wrapped (example_converted ''declare const x: number;'' True None)]\<rparr>)"
  by (simp add: example_executor_fields)

theorem runtime_failure_keeps_prevDecl_witness:
  "execute_then throwing_host ''throw new Error()'' [Interrupt] example_executor =
     (Resolved False,
      example_executor
        \<lparr>vm_runs := [wrapped (example_converted ''declare const x: number;'' False None)],
         console := [ConsoleError [Error ''my error'']]\<rparr>) \<and>
   execute_then awaiting_host ''await p'' [Settle (Inl (Str ''Good Bye Promise''))]
       example_executor =
     (Resolved False,
      example_executor
        \<lparr>vm_runs := [wrapped (example_converted ''declare const x: number;'' True None)],
         console := [ConsoleError [Str ''Good Bye Promise'']]\<rparr>) \<and>
   prevDecl example_executor = []"
proof -
  let ?c = "example_converted ''declare const x: number;'' False None"
  let ?a = "example_converted ''declare const x: number;'' True None"
  have 2: "diagnostics ?c = []" and 3: "truthy_str (conv_output ?c)"
    and a2: "diagnostics ?a = []" and a3: "truthy_str (conv_output ?a)"
    by (simp_all add: example_converted_def)
  have 5: "settle_all throwing_host [] (Failed (Error ''my error''))
             (example_executor\<lparr>vm_runs := [wrapped ?c]\<rparr>) =
           (Failed (Error ''my error''), example_executor\<lparr>vm_runs := [wrapped ?c]\<rparr>)"
    by simp
  have 6: "(\<not> hasToplevelAwait ?c \<and> ([]::outcome list) = []) \<or>
           (hasToplevelAwait ?c \<and> armed example_executor)"
    by (simp add: example_converted_def)
  have a6: "(\<not> hasToplevelAwait ?a \<and> [Inl (Str ''Good Bye Promise'')] = []) \<or>
           (hasToplevelAwait ?a \<and> armed example_executor)"
    by (simp add: example_converted_def example_executor_armed)
  show ?thesis
    using runtime_failure_keeps_prevDecl
            [OF throwing_host_converts 2 3 throwing_host_run_body 5 6,
             of "''throw new Error()''" "[Interrupt]"]
          runtime_failure_keeps_prevDecl
            [OF awaiting_host_converts a2 a3 awaiting_host_run_body awaiting_host_settle a6,
             of "''await p''" "[]"]
    by (simp add: example_executor_fields)
qed

text \<open>
  C2: converting the snippet returns no diagnostics and a body marked \<open>hasToplevelAwait\<close>,
  and \<open>interrupt\<close> is called while the body's promise is still pending (the body is
  suspended at an \<open>await\<close>, also after earlier awaited promises have settled). Then
  \<open>execute\<close> returns false, the one call it makes on the console is \<open>console.error\<close>
  with the interruption error (so nothing goes to \<open>console.log\<close>), and \<open>prevDecl\<close> is what
  it was before the call, whatever happens afterwards.
\<close>

theorem interrupt_cancels_pending:
  assumes "converts h src st c" and "diagnostics c = []" and "truthy_str (conv_output c)"
    and "hasToplevelAwait c" and "armed st"
    and "run_body h c (merge_sideOutputs c st) = (b, st2)"
    and "settle_all h rs b st2 = (Suspended k, st3)"
  shows "execute_then h src (map Settle rs @ Interrupt # evs) st =
           (Resolved False,
            (interrupt st3)\<lparr>console := console st @ [ConsoleError [interrupted]]\<rparr>) \<and>
         prevDecl (interrupt st3) = prevDecl st \<and>
         exports (interrupt st3) = exports st3"
proof -
  have f3: "prevDecl st3 = prevDecl st2" "console st3 = console st2"
    "promises st3 = promises st2" "interruptPromise st3 = interruptPromise st2"
    "rejectInterruptPromise st3 = rejectInterruptPromise st2"
    using settle_all_fields[of h rs b st2] assms(7) by simp_all
  have f2: "prevDecl st2 = prevDecl st" "console st2 = console st"
    "promises st2 = promises st" "interruptPromise st2 = interruptPromise st"
    "armed st2 = armed st"
    using run_body_armed[OF assms(6)] by simp_all
  have a3: "armed st3"
    using armed_frame[of st3 st2] f3 f2 assms(5) by simp
  have p3: "interruptPromise st3 = interruptPromise st" using f3 f2 by simp
  have none2: "promise_rejection (promises st2) (interruptPromise st) = None"
    using armed_unrejected(2)[OF assms(5)] f2 by simp
  have none3: "promise_rejection (promises st3) (interruptPromise st) = None"
    using none2 f3 by simp
  have some: "promise_rejection (promises (interrupt st3)) (interruptPromise st) = Some interrupted"
    using interrupt_rejects[OF a3] p3 by simp
  have "await_race h (map Settle rs @ Interrupt # evs) c b (interruptPromise st) st2 =
        await_race h (Interrupt # evs) c (Suspended k) (interruptPromise st) st3"
    using none2 assms(7) by (simp add: await_race_settles)
  also have "\<dots> = await_race h evs c (Suspended k) (interruptPromise st) (interrupt st3)"
    using none3 by simp
  also have "\<dots> = report_error interrupted (interrupt st3)"
    using some by simp
  finally have "execute_then h src (map Settle rs @ Interrupt # evs) st =
                report_error interrupted (interrupt st3)"
    using execute_then_converts[OF assms(1-3,6), of "map Settle rs @ Interrupt # evs"] assms(4)
    by simp
  then show ?thesis
    using f2 f3 by (simp add: report_error_def interrupt_eq)
qed

theorem interrupt_cancels_pending_witness:
  "fst (execute_then awaiting_host ''await p'' [Interrupt, Settle (Inr (Str ''done''))]
          example_executor) = Resolved False \<and>
   console (snd (execute_then awaiting_host ''await p'' [Interrupt, Settle (Inr (Str ''done''))]
          example_executor)) = [ConsoleError [interrupted]] \<and>
   prevDecl (snd (execute_then awaiting_host ''await p'' [Interrupt, Settle (Inr (Str ''done''))]
          example_executor)) = []"
proof -
  let ?c = "example_converted ''declare const x: number;'' True None"
  let ?k = "\<lambda>r. case r of Inl e \<Rightarrow> Throw e | Inr v \<Rightarrow> Return"
  have 2: "diagnostics ?c = []" and 3: "truthy_str (conv_output ?c)"
    and 4: "hasToplevelAwait ?c"
    by (simp_all add: example_converted_def)
  have 7: "settle_all awaiting_host [] (Suspended ?k)
             (example_executor\<lparr>vm_runs := [wrapped ?c]\<rparr>) =
           (Suspended ?k, example_executor\<lparr>vm_runs := [wrapped ?c]\<rparr>)"
    by simp
  show ?thesis
    using interrupt_cancels_pending
            [OF awaiting_host_converts 2 3 4 example_executor_armed awaiting_host_run_body 7,
             of "''await p''" "[Settle (Inr (Str ''done''))]"]
    by (simp add: example_executor_fields interrupt_eq)
qed

lemma display_host_converts:
  "converts (display_host v) src example_executor
     (example_converted ''declare let x: number;'' False (Some ''tsLastExpr''))"
  by (simp add: converts_def display_host_def example_host_def)

lemma display_host_run_body:
  "run_body (display_host v)
     (example_converted ''declare let x: number;'' False (Some ''tsLastExpr''))
     (merge_sideOutputs (example_converted ''declare let x: number;'' False (Some ''tsLastExpr''))
        example_executor) =
   (Completed,
    example_executor
      \<lparr>exports := createExports\<lparr>own := [(''x'', Num 10), (''tsLastExpr'', v)]\<rparr>,
       vm_runs := [wrapped (example_converted ''declare let x: number;'' False
                     (Some ''tsLastExpr''))]\<rparr>)"
  by (simp add: run_body_def merge_sideOutputs_def example_converted_def display_host_def
        example_host_def example_executor_fields define_on_proxy_def defineProperty_def
        assign_property_def inherited_property_def standard_inherits_def createExports_def
        set_property_def object_prototype_properties_def valid_descriptor_def
        value_descriptor_def attrs_value_def)

text \<open>
  C5, as the code has it. The snippet runs to its end without failing (at once, or with
  top-level await after its awaited promises have settled) and the conversion result
  names a variable for the last expression. Then \<open>execute\<close> returns true with \<open>prevDecl\<close>
  set to the declaration output, and it reads \<open>exports[name]\<close> for that variable, which is
  the own binding or else what the exports object inherits under the name: when the value
  is neither \<open>null\<close> nor \<open>undefined\<close>, the own binding (if there is one) is deleted and
  the value is written once with \<open>console.log\<close>; when it is \<open>null\<close> or \<open>undefined\<close>,
  nothing is written and the exports object is left as the body left it.
\<close>

theorem trailing_expression_display:
  assumes "converts h src st c" and "diagnostics c = []" and "truthy_str (conv_output c)"
    and "run_body h c (merge_sideOutputs c st) = (b, st2)"
    and "settle_all h rs b st2 = (b3, st3)"
    and "(\<not> hasToplevelAwait c \<and> rs = [] \<and> (\<forall>e. b \<noteq> Failed e)) \<or>
         (hasToplevelAwait c \<and> armed st \<and> b3 = Completed)"
    and "lastExpressionVar c = Some name" and "name \<noteq> []"
  shows "execute_then h src (map Settle rs @ evs) st =
           (Resolved True,
            if not_nullish (get_property (inherits h) (exports st3) name)
            then st3\<lparr>prevDecl := or_empty (declOutput c),
                     exports := delete_property name (exports st3),
                     console := console st @
                       [ConsoleLog [get_property (inherits h) (exports st3) name]]\<rparr>
            else st3\<lparr>prevDecl := or_empty (declOutput c)\<rparr>) \<and>
         console st3 = console st"
proof -
  have f3: "console st3 = console st2"
    using settle_all_fields[of h rs b st2] assms(5) by simp
  have f2: "console st2 = console st"
    using run_body_armed[OF assms(4)] by simp
  have fin: "finish_execute h c st3 =
          (Resolved True,
            if not_nullish (get_property (inherits h) (exports st3) name)
            then st3\<lparr>prevDecl := or_empty (declOutput c),
                     exports := delete_property name (exports st3),
                     console := console st @
                       [ConsoleLog [get_property (inherits h) (exports st3) name]]\<rparr>
            else st3\<lparr>prevDecl := or_empty (declOutput c)\<rparr>)"
    using assms(7,8) f2 f3 by (simp add: finish_execute_def Let_def)
  from assms(6) have "execute_then h src (map Settle rs @ evs) st = finish_execute h c st3"
  proof
    assume s: "\<not> hasToplevelAwait c \<and> rs = [] \<and> (\<forall>e. b \<noteq> Failed e)"
    then have "st3 = st2" using assms(5) by simp
    then show ?thesis
      using s execute_then_converts[OF assms(1-4), of evs]
      by (cases b) simp_all
  next
    assume a: "hasToplevelAwait c \<and> armed st \<and> b3 = Completed"
    have "promise_rejection (promises st2) (interruptPromise st) = None"
      using armed_unrejected(2)[of st] a run_body_armed(5)[OF assms(4)] by simp
    then have "await_race h (map Settle rs @ evs) c b (interruptPromise st) st2 =
               finish_execute h c st3"
      using assms(5) a by (simp add: await_race_settles)
    then show ?thesis
      using a execute_then_converts[OF assms(1-4), of "map Settle rs @ evs"] by simp
  qed
  then show ?thesis using fin f2 f3 by simp
qed

lemma inheriting_host_converts:
  "converts inheriting_host src example_executor
     (example_converted ''declare let x: number;'' False (Some ''toString''))"
  by (simp add: converts_def inheriting_host_def example_host_def)

lemma inheriting_host_run_body:
  "run_body inheriting_host
     (example_converted ''declare let x: number;'' False (Some ''toString''))
     (merge_sideOutputs (example_converted ''declare let x: number;'' False (Some ''toString''))
        example_executor) =
   (Completed,
    example_executor
      \<lparr>vm_runs := [wrapped (example_converted ''declare let x: number;'' False
                     (Some ''toString''))]\<rparr>)"
  by (simp add: run_body_def merge_sideOutputs_def example_converted_def inheriting_host_def
        example_host_def example_executor_fields)

theorem trailing_expression_display_witness:
  "execute_then (display_host (Num 14)) ''let x = 10; x + 4'' [] example_executor =
     (Resolved True,
      example_executor
        \<lparr>exports := createExports\<lparr>own := [(''x'', Num 10)]\<rparr>,
         vm_runs := [wrapped (example_converted ''declare let x: number;'' False
                       (Some ''tsLastExpr''))],
         prevDecl := ''declare let x: number;'',
         console := [ConsoleLog [Num 14]]\<rparr>) \<and>
   execute_then inheriting_host ''toString'' [] example_executor =
     (Resolved True,
      example_executor
        \<lparr>vm_runs := [wrapped (example_converted ''declare let x: number;'' False
                       (Some ''toString''))],
         prevDecl := ''declare let x: number;'',
         exports := createExports,
         console := [ConsoleLog [Builtin ''toString'']]\<rparr>)"
proof -
  let ?i = "example_converted ''declare let x: number;'' False (Some ''toString'')"
  let ?sti = "example_executor\<lparr>vm_runs := [wrapped ?i]\<rparr>"
  have i2: "diagnostics ?i = []" and i3: "truthy_str (conv_output ?i)"
    and i7: "lastExpressionVar ?i = Some ''toString''" and i8: "''toString'' \<noteq> []"
    by (simp_all add: example_converted_def)
  have i5: "settle_all inheriting_host [] Completed ?sti = (Completed, ?sti)"
    by simp
  have i6: "(\<not> hasToplevelAwait ?i \<and> ([]::outcome list) = [] \<and> (\<forall>e. Completed \<noteq> Failed e)) \<or>
           (hasToplevelAwait ?i \<and> armed example_executor \<and> Completed = Completed)"
    by (simp add: example_converted_def)
  have ih: "inherits inheriting_host = standard_inherits"
    by (simp add: inheriting_host_def example_host_def)
  have ig: "get_property standard_inherits createExports ''toString'' = Builtin ''toString''"
    by (simp add: get_property_def inherited_property_def standard_inherits_def
          createExports_def object_prototype_properties_def)
  have idel: "delete_property ''toString'' createExports = createExports"
    by (simp add: delete_property_def createExports_def)
  have inherited_run:
    "execute_then inheriting_host ''toString'' [] example_executor =
     (Resolved True,
      example_executor
        \<lparr>vm_runs := [wrapped ?i], prevDecl := ''declare let x: number;'',
         exports := createExports,
         console := [ConsoleLog [Builtin ''toString'']]\<rparr>)"
    using trailing_expression_display
            [OF inheriting_host_converts i2 i3 inheriting_host_run_body i5 i6 i7 i8,
             of "''toString''" "[]"]
    by (simp add: example_executor_fields ih ig idel)
      (simp add: example_converted_def)
  let ?c = "example_converted ''declare let x: number;'' False (Some ''tsLastExpr'')"
  let ?st = "example_executor\<lparr>exports :=
                  createExports\<lparr>own := [(''x'', Num 10), (''tsLastExpr'', Num 14)]\<rparr>,
                vm_runs := [wrapped ?c]\<rparr>"
  have 2: "diagnostics ?c = []" and 3: "truthy_str (conv_output ?c)"
    and 7: "lastExpressionVar ?c = Some ''tsLastExpr''" and 8: "''tsLastExpr'' \<noteq> []"
    by (simp_all add: example_converted_def)
  have 5: "settle_all (display_host (Num 14)) [] Completed ?st = (Completed, ?st)"
    by simp
  have 6: "(\<not> hasToplevelAwait ?c \<and> ([]::outcome list) = [] \<and> (\<forall>e. Completed \<noteq> Failed e)) \<or>
           (hasToplevelAwait ?c \<and> armed example_executor \<and> Completed = Completed)"
    by (simp add: example_converted_def)
  have dh: "inherits (display_host (Num 14)) = standard_inherits"
    by (simp add: display_host_def example_host_def)
  have own_run:
    "execute_then (display_host (Num 14)) ''let x = 10; x + 4'' [] example_executor =
     (Resolved True,
      example_executor
        \<lparr>exports := createExports\<lparr>own := [(''x'', Num 10)]\<rparr>,
         vm_runs := [wrapped ?c], prevDecl := ''declare let x: number;'',
         console := [ConsoleLog [Num 14]]\<rparr>)"
    using trailing_expression_display
            [OF display_host_converts 2 3 display_host_run_body 5 6 7 8,
             of "''let x = 10; x + 4''" "[]"]
    by (simp add: example_executor_fields dh get_property_def delete_property_def
          example_converted_def createExports_def)
  show ?thesis
    by (intro conjI) (rule own_run inherited_run)+
qed

text \<open>
  C5 as stated fails: when the last expression's value is \<open>null\<close>, the variable that holds
  it is still bound in the exports object after a successful \<open>execute\<close>.
\<close>

theorem trailing_expression_counterexample:
  "lastExpressionVar (example_converted ''declare let x: number;'' False (Some ''tsLastExpr''))
     = Some ''tsLastExpr'' \<and>
   fst (execute (display_host Null) ''let x = 10; null'' example_executor) = Resolved True \<and>
   map_of (own (exports (snd (execute (display_host Null) ''let x = 10; null''
                                 example_executor))))
     ''tsLastExpr'' = Some Null"
  using execute_converts [OF display_host_converts, of Null "''let x = 10; null''"]
  by (simp add: display_host_run_body finish_execute_def Let_def get_property_def)
    (simp add: example_converted_def)









text \<open>
  C8: \<open>interrupt\<close> has no failing path. On a well-formed executor (the interrupt promise is
  the one pending promise, and every promise has a handler, so no rejection is unhandled)
  it changes only the interrupt promise, its reject function and the list of promises,
  whether or not an execution is in flight; the old interrupt promise is rejected with the
  interruption error, a new pending one is armed, and the executor is well-formed again:
  exactly one promise is pending. An \<open>execute\<close> started afterwards races against the new
  promise, which the earlier \<open>interrupt\<close> has not rejected, so a suspended body keeps it
  waiting.
\<close>

theorem interrupt_rearms:
  assumes "armed st"
  shows "armed (interrupt st) \<and>
         interruptPromise (interrupt st) \<noteq> interruptPromise st \<and>
         promise_rejection (promises (interrupt st)) (interruptPromise st) = Some interrupted \<and>
         promise_rejection (promises (interrupt st)) (interruptPromise (interrupt st)) = None \<and>
         (\<exists>p ps. interrupt st =
            st\<lparr>interruptPromise := p, rejectInterruptPromise := p, promises := ps\<rparr>) \<and>
         (\<forall>h src c b p st1.
            execute h src (interrupt st) = (Awaiting c b p, st1) \<longrightarrow>
              p = interruptPromise (interrupt st) \<and>
              promise_rejection (promises st1) p = None \<and>
              (\<forall>k. b = Suspended k \<longrightarrow>
                 await_race h [] c b p st1 = (Awaiting c b p, st1)))"
proof -
  have a: "armed (interrupt st)" using assms by (rule interrupt_armed)
  have ne: "interruptPromise (interrupt st) \<noteq> interruptPromise st"
    using armed_unrejected(1)[OF assms] by (simp add: interrupt_eq)
  have ex: "p = interruptPromise (interrupt st) \<and>
              promise_rejection (promises st1) p = None \<and>
              (\<forall>k. b = Suspended k \<longrightarrow>
                 await_race h [] c b p st1 = (Awaiting c b p, st1))"
    if e: "execute h src (interrupt st) = (Awaiting c b p, st1)" for h src c b p st1
  proof -
    have "\<exists>c' b' p' st'. execute h src (interrupt st) = (Awaiting c' b' p', st')"
      using e by blast
    have fields: "p = interruptPromise (interrupt st) \<and> promises st1 = promises (interrupt st)"
      using e
      by (auto simp: execute_def Let_def finish_execute_def report_error_def
            run_body_fields merge_sideOutputs_fields
            split: if_splits sum.splits prod.splits body.splits
            dest!: arg_cong[where f=snd] )
    then have "promise_rejection (promises st1) p = None"
      using armed_unrejected(2)[OF a] by simp
    then show ?thesis using fields by simp
  qed
  show ?thesis
    using a ne interrupt_rejects[OF assms] armed_unrejected(2)[OF a] ex
    by (intro conjI) (auto simp: interrupt_eq)
qed

lemma example_executor_promises:
  "promises example_executor = [\<lparr>rejection = None, handled = True\<rparr>]"
  "rejectInterruptPromise example_executor = 0"
  using catch_promise_last[of "[]"]
  by (simp_all add: example_executor_def createExecutor_def resetInterruptPromise_def Let_def)

theorem interrupt_rearms_witness:
  "armed example_executor \<and> armed (interrupt example_executor) \<and>
   interruptPromise example_executor = 0 \<and>
   interruptPromise (interrupt example_executor) = 1 \<and>
   promise_rejection (promises (interrupt example_executor)) 0 = Some interrupted \<and>
   promise_rejection (promises (interrupt example_executor)) 1 = None \<and>
   console (interrupt example_executor) = [] \<and>
   await_race awaiting_host []
     (example_converted ''declare const x: number;'' True None)
     (Suspended (\<lambda>r. case r of Inl e \<Rightarrow> Throw e | Inr v \<Rightarrow> Return)) 1
     ((interrupt example_executor)
        \<lparr>vm_runs := [wrapped (example_converted ''declare const x: number;'' True None)]\<rparr>) =
   (Awaiting (example_converted ''declare const x: number;'' True None)
     (Suspended (\<lambda>r. case r of Inl e \<Rightarrow> Throw e | Inr v \<Rightarrow> Return)) 1,
    (interrupt example_executor)
        \<lparr>vm_runs := [wrapped (example_converted ''declare const x: number;'' True None)]\<rparr>)"
proof -
  let ?c = "example_converted ''declare const x: number;'' True None"
  let ?k = "\<lambda>r. case r of Inl e \<Rightarrow> Throw e | Inr v \<Rightarrow> Return"
  have i: "interruptPromise (interrupt example_executor) = 1"
    by (simp add: interrupt_eq example_executor_promises)
  have e: "execute awaiting_host ''await p'' (interrupt example_executor) =
          (Awaiting ?c (Suspended ?k) 1, (interrupt example_executor)\<lparr>vm_runs := [wrapped ?c]\<rparr>)"
    by (simp add: execute_def awaiting_host_def example_host_def Let_def run_body_def
          merge_sideOutputs_def example_converted_def interrupt_eq example_executor_fields
          example_executor_promises)
  note r = interrupt_rearms [OF example_executor_armed]
  have z: "interruptPromise example_executor = 0" by (simp add: example_executor_fields)
  have a: "armed (interrupt example_executor)" using r by blast
  have rej: "promise_rejection (promises (interrupt example_executor)) 0 = Some interrupted"
    using r z by simp
  have none: "promise_rejection (promises (interrupt example_executor)) 1 = None"
    using r i by simp
  have c: "console (interrupt example_executor) = []"
    by (simp add: interrupt_eq example_executor_fields)
  have aw: "await_race awaiting_host [] ?c (Suspended ?k) 1
            ((interrupt example_executor)\<lparr>vm_runs := [wrapped ?c]\<rparr>) =
          (Awaiting ?c (Suspended ?k) 1, (interrupt example_executor)\<lparr>vm_runs := [wrapped ?c]\<rparr>)"
    using r e by blast
  show ?thesis
    by (intro conjI) (rule example_executor_armed a z i rej none c aw)+
qed

section \<open>Every operation keeps the executor well-formed\<close>

lemma finish_report_armed:
  "armed (snd (finish_execute h c st)) = armed st"
  "armed (snd (report_error e st)) = armed st"
  "armed (printDiagnostics ds st) = armed st"
  by (rule armed_frame; simp add: finish_execute_def report_error_def Let_def printDiagnostics_eq)+

lemma await_race_armed:
  assumes "armed st"
  shows "armed (snd (await_race h evs c b p st))"
  using assms
proof (induction evs arbitrary: b st)
  case Nil
  then show ?case by (cases b) (simp_all add: finish_report_armed split: option.splits)
next
  case (Cons ev evs)
  show ?case
  proof (cases b)
    case (Suspended k)
    show ?thesis
    proof (cases "promise_rejection (promises st) p")
      case (Some e)
      then show ?thesis using Suspended Cons.prems by (simp add: finish_report_armed)
    next
      case None
      show ?thesis
      proof (cases ev)
        case Interrupt
        from Cons.IH[OF interrupt_armed[OF Cons.prems], of "Suspended k"] show ?thesis
          using Suspended None Interrupt by simp
      next
        case (Settle r)
        obtain b' st' where r: "resume h r (Suspended k) st = (b', st')"
          by (cases "resume h r (Suspended k) st")
        have "armed st'" using resume_armed[of h r "Suspended k" st] r Cons.prems by simp
        from Cons.IH[OF this, of b'] show ?thesis
          using Suspended None Settle r by (simp del: resume.simps)
      qed
    qed
  qed (use Cons.prems in \<open>simp_all add: finish_report_armed\<close>)
qed

lemma execute_armed:
  assumes "armed st"
  shows "armed (snd (execute h src st))"
proof -
  have m: "armed (merge_sideOutputs c st)" for c
    using assms armed_frame[of "merge_sideOutputs c st" st]
    by (simp add: merge_sideOutputs_fields)
  have b: "armed (snd (run_body h c (merge_sideOutputs c st)))" for c
    using m[of c] armed_frame[of "snd (run_body h c (merge_sideOutputs c st))" "merge_sideOutputs c st"]
    by (simp add: run_body_fields)
  have p: "armed (st'\<lparr>prevDecl := d\<rparr>) = armed st'" for st' d
    by (rule armed_frame) simp_all
  show ?thesis
    using assms m b
    by (simp add: execute_def Let_def finish_report_armed case_prod_beta p
          split: sum.splits body.splits)
qed

lemma execute_then_armed:
  assumes "armed st"
  shows "armed (snd (execute_then h src evs st))"
proof (cases "execute h src st")
  case (Pair r st1)
  have a1: "armed st1" using execute_armed[OF assms, of h src] Pair by simp
  show ?thesis
  proof (cases r)
    case (Awaiting c b p)
    then show ?thesis using Pair await_race_armed[OF a1] by (simp add: execute_then_def)
  qed (use Pair a1 in \<open>simp_all add: execute_then_def\<close>)
qed

lemma reset_armed: "armed (reset st) = armed st"
  by (rule armed_frame)
     (simp_all add: reset_def Let_def fold_delete_exports)

lemma reset_coherent:
  "coherent (sideOutputs (reset st)) (sideModules (reset st)) =
   coherent (sideOutputs st) (sideModules st)"
  by (simp add: reset_def Let_def fold_delete_exports)
section \<open>The module cache\<close>

lemma updateSideOutputs_eq:
  "updateSideOutputs outs (so, ms) =
     (so ++ recorded outs, (\<lambda>p. if p \<in> so_path ` set outs then None else ms p))"
proof (induction outs arbitrary: so ms)
  case Nil
  then show ?case by (simp add: recorded_def)
next
  case (Cons out outs)
  show ?case
    apply (simp add: Cons.IH recorded_def)
    apply (auto simp: fun_eq_iff map_add_def split: option.splits)
    done
qed

lemma updateSideOutputs_coherent:
  assumes "coherent so ms"
  shows "coherent (fst (updateSideOutputs outs (so, ms))) (snd (updateSideOutputs outs (so, ms)))"
  using assms unfolding updateSideOutputs_eq coherent_def recorded_def
  by (auto simp: map_add_def split: option.splits dest!: map_of_SomeD)

lemma run_module_invariant:
  assumes "\<And>args ms. P ms \<Longrightarrow> P (snd (rq args ms))" and "P ms"
  shows "P (snd (run_module rq code ms))"
  using assms(2)
proof (induction code arbitrary: ms)
  case (MRequire args k)
  obtain r ms' where r: "rq args ms = (r, ms')" by (cases "rq args ms")
  have "P ms'" using assms(1)[OF MRequire.prems, of args] r by simp
  then show ?case using MRequire.IH r by auto
qed simp_all

lemma run_snippet_invariant:
  assumes "\<And>args ms. P ms \<Longrightarrow> P (snd (rq args ms))" and "P (snd w)"
  shows "P (snd (snd (run_snippet inh rq code w)))"
  using assms(2)
proof (induction code arbitrary: w)
  case (Require args k)
  obtain r ms' where r: "rq args (snd w) = (r, ms')" by (cases "rq args (snd w)")
  have "P ms'" using assms(1)[OF Require.prems, of args] r by simp
  then show ?case using Require.IH r by auto
next
  case (DefineProperty name d k)
  obtain r t' where r: "define_on_proxy inh (fst w) name d = (r, t')"
    by (cases "define_on_proxy inh (fst w) name d")
  show ?case
    using DefineProperty.prems r
    by (cases r) (auto intro!: DefineProperty.IH)
next
  case (SetPrototypeOf v k)
  show ?case
    using SetPrototypeOf.prems
    by (cases "setPrototypeOf v (fst w)") (auto intro!: SetPrototypeOf.IH)
qed simp_all

lemma wrapRequire_invariant:
  assumes "\<And>ident. P (snd (requireFromSideOutputs d h dirname so ident ms))" and "P ms"
  shows "P (snd (wrapRequire d h req dirname so args ms))"
proof (cases "\<exists>arg. args = [arg] \<and> arg \<noteq> ''tslab''")
  case True
  then obtain arg where a: "args = [arg]" "arg \<noteq> ''tslab''" by blast
  obtain r ms' where r: "requireFromSideOutputs d h dirname so arg ms = (r, ms')"
    by (cases "requireFromSideOutputs d h dirname so arg ms")
  have "P ms'" using assms(1)[of arg] r by simp
  then show ?thesis using a r by (simp add: wrapRequire.simps split: sum.splits)
next
  case False
  then show ?thesis using assms(2)
    by (auto simp: wrapRequire.simps split: list.splits)
qed

lemma requireFromSideOutputs_load:
  assumes "ms (side_filename h dirname ident) = None"
    and "so (side_filename h dirname ident) = Some src"
  shows "requireFromSideOutputs (Suc d) h dirname so ident ms =
     (case run_module
             (wrapRequire d h (module_require h (side_filename h dirname ident))
                (path_dirname h (side_filename h dirname ident)) so)
             (module_compile h src (side_filename h dirname ident)) ms of
        (Inl e, ms') \<Rightarrow> (Inl e, ms')
      | (Inr v, ms') \<Rightarrow>
          (Inr v, ms'(side_filename h dirname ident \<mapsto>
             \<lparr>mod_filename = side_filename h dirname ident, mod_exports = v,
              compiled_from = src\<rparr>)))"
  using assms by (simp add: requireFromSideOutputs.simps Let_def)

lemma require_coherent:
  "(\<forall>req dirname args ms. coherent so ms \<longrightarrow>
      coherent so (snd (wrapRequire d h req dirname so args ms))) \<and>
   (\<forall>dirname ident ms. coherent so ms \<longrightarrow>
      coherent so (snd (requireFromSideOutputs d h dirname so ident ms)))"
proof (induction d)
  case 0
  have r: "coherent so (snd (requireFromSideOutputs 0 h dirname so ident ms))"
    if "coherent so ms" for dirname ident ms
    using that by (simp add: requireFromSideOutputs.simps Let_def split: option.splits)
  show ?case
    apply (intro conjI allI impI)
    subgoal for req dirname args ms
      by (rule wrapRequire_invariant) (use r in auto)
    using r by simp
next
  case (Suc d)
  have r: "coherent so (snd (requireFromSideOutputs (Suc d) h dirname so ident ms))"
    if c: "coherent so ms" for dirname ident ms
  proof -
    let ?f = "side_filename h dirname ident"
    show ?thesis
    proof (cases "ms ?f")
      case (Some a)
      then show ?thesis using c by (simp add: requireFromSideOutputs.simps Let_def)
    next
      case None
      show ?thesis
      proof (cases "so ?f")
        case None2: None
        then show ?thesis using c None by (simp add: requireFromSideOutputs.simps Let_def)
      next
        case (Some src)
        let ?run = "run_module (wrapRequire d h (module_require h ?f) (path_dirname h ?f) so)
                      (module_compile h src ?f) ms"
        have "coherent so (snd ?run)"
          by (rule run_module_invariant[where P="coherent so"]) (use Suc c in auto)
        then show ?thesis using Some
          unfolding requireFromSideOutputs_load
                      [where ms=ms and so=so and h=h and dirname=dirname and ident=ident,
                       OF None Some]
          by (auto simp: coherent_def case_prod_beta split: sum.splits)
      qed
    qed
  qed
  show ?case
    apply (intro conjI allI impI)
    subgoal for req dirname args ms
      by (rule wrapRequire_invariant) (use r in auto)
    using r by simp
qed

lemma requireFromSideOutputs_again:
  assumes "requireFromSideOutputs d h dirname so ident ms = (Inr v, ms1)"
    and "side_filename h dirname' ident' = side_filename h dirname ident"
  shows "requireFromSideOutputs d' h dirname' so ident' ms1 = (Inr v, ms1)"
  using assms
  by (cases d) (auto simp: requireFromSideOutputs.simps Let_def split: option.splits prod.splits sum.splits)

lemma require_times_again:
  assumes "requireFromSideOutputs d h dirname so ident ms = (Inr v, ms1)"
  shows "require_times n d' h dirname so ident ms1 = (replicate n (Inr v), ms1)"
  using requireFromSideOutputs_again[OF assms refl, of d']
  by (induction n) simp_all

lemma snippet_require_coherent:
  assumes "coherent (sideOutputs st) ms"
  shows "coherent (sideOutputs st) (snd (snippet_require h st args ms))"
  using require_coherent[of "sideOutputs st" "stack h" h] assms
  by (simp add: snippet_require_def)

lemma merge_sideOutputs_coherent:
  assumes "coherent (sideOutputs st) (sideModules st)"
  shows "coherent (sideOutputs (merge_sideOutputs c st)) (sideModules (merge_sideOutputs c st))"
proof (cases "conv_sideOutputs c")
  case None
  then show ?thesis using assms by (simp add: merge_sideOutputs_def)
next
  case (Some outs)
  show ?thesis
    using updateSideOutputs_coherent[OF assms, of outs] Some
    by (simp add: merge_sideOutputs_def case_prod_beta)
qed

lemma run_body_coherent:
  assumes "coherent (sideOutputs st) (sideModules st)"
  shows "coherent (sideOutputs (snd (run_body h c st))) (sideModules (snd (run_body h c st)))"
proof -
  have "coherent (sideOutputs st)
          (snd (snd (run_snippet (inherits h) (snippet_require h st)
                      (runInThisContext h (wrapped c)) (exports st, sideModules st))))"
    by (rule run_snippet_invariant[where P="coherent (sideOutputs st)"])
       (use assms snippet_require_coherent in auto)
  then show ?thesis by (simp add: run_body_def case_prod_beta)
qed

lemma resume_coherent:
  assumes "coherent (sideOutputs st) (sideModules st)"
  shows "coherent (sideOutputs (snd (resume h r b st))) (sideModules (snd (resume h r b st)))"
proof (cases b)
  case (Suspended k)
  have "coherent (sideOutputs st)
          (snd (snd (run_snippet (inherits h) (snippet_require h st) (k r)
                      (exports st, sideModules st))))"
    by (rule run_snippet_invariant[where P="coherent (sideOutputs st)"])
       (use assms snippet_require_coherent in auto)
  then show ?thesis using Suspended by (simp add: case_prod_beta)
qed (use assms in simp_all)

lemma finish_report_coherent:
  "sideOutputs (snd (finish_execute h c st)) = sideOutputs st"
  "sideModules (snd (finish_execute h c st)) = sideModules st"
  "sideOutputs (snd (report_error e st)) = sideOutputs st"
  "sideModules (snd (report_error e st)) = sideModules st"
  "sideOutputs (interrupt st) = sideOutputs st"
  "sideModules (interrupt st) = sideModules st"
  "sideOutputs (printDiagnostics ds st) = sideOutputs st"
  "sideModules (printDiagnostics ds st) = sideModules st"
  by (simp_all add: finish_execute_def report_error_def Let_def interrupt_eq printDiagnostics_eq)

lemma await_race_coherent:
  assumes "coherent (sideOutputs st) (sideModules st)"
  shows "coherent (sideOutputs (snd (await_race h evs c b p st)))
           (sideModules (snd (await_race h evs c b p st)))"
  using assms
proof (induction evs arbitrary: b st)
  case Nil
  then show ?case by (cases b) (simp_all add: finish_report_coherent split: option.splits)
next
  case (Cons ev evs)
  show ?case
  proof (cases b)
    case (Suspended k)
    show ?thesis
    proof (cases "promise_rejection (promises st) p")
      case (Some e)
      then show ?thesis using Suspended Cons.prems by (simp add: finish_report_coherent)
    next
      case None
      show ?thesis
      proof (cases ev)
        case Interrupt
        have "coherent (sideOutputs (interrupt st)) (sideModules (interrupt st))"
          using Cons.prems by (simp add: finish_report_coherent)
        from Cons.IH[OF this, of "Suspended k"] show ?thesis
          using Suspended None Interrupt by simp
      next
        case (Settle r)
        obtain b' st' where r: "resume h r (Suspended k) st = (b', st')"
          by (cases "resume h r (Suspended k) st")
        have "coherent (sideOutputs st') (sideModules st')"
          using resume_coherent[OF Cons.prems, of h r "Suspended k"] r by simp
        from Cons.IH[OF this, of b'] show ?thesis
          using Suspended None Settle r by (simp del: resume.simps)
      qed
    qed
  qed (use Cons.prems in \<open>simp_all add: finish_report_coherent\<close>)
qed

lemma execute_coherent:
  assumes "coherent (sideOutputs st) (sideModules st)"
  shows "coherent (sideOutputs (snd (execute h src st))) (sideModules (snd (execute h src st)))"
proof -
  have m: "coherent (sideOutputs (merge_sideOutputs c st)) (sideModules (merge_sideOutputs c st))" for c
    using assms by (rule merge_sideOutputs_coherent)
  have b: "coherent (sideOutputs (snd (run_body h c (merge_sideOutputs c st))))
             (sideModules (snd (run_body h c (merge_sideOutputs c st))))" for c
    using m by (rule run_body_coherent)
  show ?thesis
    using assms m b
    by (simp add: execute_def Let_def finish_report_coherent case_prod_beta
          split: sum.splits body.splits)
qed

lemma execute_then_coherent:
  assumes "coherent (sideOutputs st) (sideModules st)"
  shows "coherent (sideOutputs (snd (execute_then h src evs st)))
           (sideModules (snd (execute_then h src evs st)))"
proof (cases "execute h src st")
  case (Pair r st1)
  have c1: "coherent (sideOutputs st1) (sideModules st1)"
    using execute_coherent[OF assms, of h src] Pair by simp
  show ?thesis
  proof (cases r)
    case (Awaiting c b p)
    then show ?thesis using Pair await_race_coherent[OF c1] by (simp add: execute_then_def)
  qed (use Pair c1 in \<open>simp_all add: execute_then_def\<close>)
qed

lemma createExecutor_coherent:
  "coherent (sideOutputs (createExecutor dir)) (sideModules (createExecutor dir))"
  by (simp add: createExecutor_def resetInterruptPromise_def Let_def coherent_def)

text \<open>
  What holds of the cache whatever the modules export: a cached module instance exists
  only for a path whose recorded source text is the one it was compiled from.
  \<open>updateSideOutputs\<close> records for every path it is given the last
  source text given for it and drops that path's cached instance, leaving the other paths
  alone, and it keeps the cache coherent. An import keeps it coherent too. Importing a path
  that has a recorded source and no cached instance compiles that recorded source, and
  caches the instance when the module's code returns. Once an import has returned,
  \<open>requireFromSideOutputs\<close> returns the same exports for the path any number of times and
  leaves the cache as it is. Every \<open>execute\<close>, with the events that follow it, keeps the
  executor's cache coherent.
\<close>

lemma side_module_cache_coherent:
  assumes "coherent so ms"
  shows "updateSideOutputs outs (so, ms) =
           (so ++ recorded outs, (\<lambda>p. if p \<in> so_path ` set outs then None else ms p)) \<and>
         coherent (fst (updateSideOutputs outs (so, ms))) (snd (updateSideOutputs outs (so, ms))) \<and>
         coherent so (snd (requireFromSideOutputs d h dirname so ident ms)) \<and>
         coherent so (snd (wrapRequire d h req dirname so args ms)) \<and>
         (\<forall>src. ms (side_filename h dirname ident) = None \<and>
                so (side_filename h dirname ident) = Some src \<longrightarrow>
            requireFromSideOutputs (Suc d) h dirname so ident ms =
              (case run_module
                      (wrapRequire d h (module_require h (side_filename h dirname ident))
                         (path_dirname h (side_filename h dirname ident)) so)
                      (module_compile h src (side_filename h dirname ident)) ms of
                 (Inl e, ms') \<Rightarrow> (Inl e, ms')
               | (Inr v, ms') \<Rightarrow>
                   (Inr v, ms'(side_filename h dirname ident \<mapsto>
                      \<lparr>mod_filename = side_filename h dirname ident, mod_exports = v,
                       compiled_from = src\<rparr>)))) \<and>
         (\<forall>v ms1 n d'.
            requireFromSideOutputs d h dirname so ident ms = (Inr v, ms1) \<longrightarrow>
              require_times n d' h dirname so ident ms1 = (replicate n (Inr v), ms1)) \<and>
         (\<forall>st src evs.
            sideOutputs st = so \<and> sideModules st = ms \<longrightarrow>
              coherent (sideOutputs (snd (execute_then h src evs st)))
                (sideModules (snd (execute_then h src evs st))))"
proof (intro conjI allI impI)
  show "updateSideOutputs outs (so, ms) =
           (so ++ recorded outs, (\<lambda>p. if p \<in> so_path ` set outs then None else ms p))"
    by (rule updateSideOutputs_eq)
  show "coherent (fst (updateSideOutputs outs (so, ms))) (snd (updateSideOutputs outs (so, ms)))"
    using assms by (rule updateSideOutputs_coherent)
  show "coherent so (snd (requireFromSideOutputs d h dirname so ident ms))"
    using require_coherent[of so d h] assms by blast
  show "coherent so (snd (wrapRequire d h req dirname so args ms))"
    using require_coherent[of so d h] assms by blast
next
  fix src
  assume "ms (side_filename h dirname ident) = None \<and>
          so (side_filename h dirname ident) = Some src"
  then show "requireFromSideOutputs (Suc d) h dirname so ident ms =
              (case run_module
                      (wrapRequire d h (module_require h (side_filename h dirname ident))
                         (path_dirname h (side_filename h dirname ident)) so)
                      (module_compile h src (side_filename h dirname ident)) ms of
                 (Inl e, ms') \<Rightarrow> (Inl e, ms')
               | (Inr v, ms') \<Rightarrow>
                   (Inr v, ms'(side_filename h dirname ident \<mapsto>
                      \<lparr>mod_filename = side_filename h dirname ident, mod_exports = v,
                       compiled_from = src\<rparr>)))"
    using requireFromSideOutputs_load
            [where ms=ms and so=so and h=h and dirname=dirname and ident=ident and src=src]
    by blast
next
  fix v ms1 n d'
  assume "requireFromSideOutputs d h dirname so ident ms = (Inr v, ms1)"
  then show "require_times n d' h dirname so ident ms1 = (replicate n (Inr v), ms1)"
    by (rule require_times_again)
next
  fix st :: executor and src evs
  assume "sideOutputs st = so \<and> sideModules st = ms"
  then have "coherent (sideOutputs st) (sideModules st)" using assms by simp
  then show "coherent (sideOutputs (snd (execute_then h src evs st)))
                (sideModules (snd (execute_then h src evs st)))"
    by (rule execute_then_coherent)
qed

lemma module_host_filename: "side_filename module_host ''/lab'' ''a'' = ''/lab/a.js''"
  by (simp add: side_filename_def module_host_def example_host_def)

lemma side_module_cache_example:
  "coherent Map.empty Map.empty \<and>
   updateSideOutputs [\<lparr>so_path = ''/lab/a.js'', so_data = ''exports.a = 1''\<rparr>]
       (Map.empty, Map.empty) =
     ([''/lab/a.js'' \<mapsto> ''exports.a = 1''], Map.empty) \<and>
   coherent [''/lab/a.js'' \<mapsto> ''exports.a = 1''] Map.empty \<and>
   requireFromSideOutputs 1 module_host ''/lab'' [''/lab/a.js'' \<mapsto> ''exports.a = 1'']
       ''a'' Map.empty =
     (Inr (Str ''exports.a = 1''),
      [''/lab/a.js'' \<mapsto> \<lparr>mod_filename = ''/lab/a.js'', mod_exports = Str ''exports.a = 1'',
                            compiled_from = ''exports.a = 1''\<rparr>]) \<and>
   require_times 2 0 module_host ''/lab'' [''/lab/a.js'' \<mapsto> ''exports.a = 1''] ''a''
       [''/lab/a.js'' \<mapsto> \<lparr>mod_filename = ''/lab/a.js'', mod_exports = Str ''exports.a = 1'',
                            compiled_from = ''exports.a = 1''\<rparr>] =
     ([Inr (Str ''exports.a = 1''), Inr (Str ''exports.a = 1'')],
      [''/lab/a.js'' \<mapsto> \<lparr>mod_filename = ''/lab/a.js'', mod_exports = Str ''exports.a = 1'',
                            compiled_from = ''exports.a = 1''\<rparr>]) \<and>
   coherent (sideOutputs (snd (execute_then failing_host ''let x = y;'' [] example_executor)))
     (sideModules (snd (execute_then failing_host ''let x = y;'' [] example_executor)))"
proof -
  let ?out = "\<lparr>so_path = ''/lab/a.js'', so_data = ''exports.a = 1''\<rparr>"
  let ?so = "[''/lab/a.js'' \<mapsto> ''exports.a = 1'']"
  let ?ms = "[''/lab/a.js'' \<mapsto> \<lparr>mod_filename = ''/lab/a.js'',
                mod_exports = Str ''exports.a = 1'', compiled_from = ''exports.a = 1''\<rparr>]"
  have c0: "coherent (Map.empty :: outputs) (Map.empty :: modules)"
    by (simp add: coherent_def)
  note t0 = side_module_cache_coherent [OF c0, of "[?out]"]
  have u: "updateSideOutputs [?out] (Map.empty, Map.empty) = (?so, Map.empty)"
    by simp
  have c1: "coherent ?so (Map.empty :: modules)"
    using t0 [THEN conjunct2, THEN conjunct1] by (simp only: u fst_conv snd_conv)
  note t1 = side_module_cache_coherent
              [OF c1, of "[]" 0 module_host "''/lab''" "''a''"]
  have hyp: "(Map.empty :: modules) (side_filename module_host ''/lab'' ''a'') = None \<and>
             ?so (side_filename module_host ''/lab'' ''a'') = Some ''exports.a = 1''"
    by (simp add: module_host_filename)
  have load: "requireFromSideOutputs 1 module_host ''/lab'' ?so ''a'' Map.empty =
              (Inr (Str ''exports.a = 1''), ?ms)"
  proof -
    have mc: "module_compile module_host src f = MExports (Str src)" for src f
      by (simp add: module_host_def example_host_def)
    have "requireFromSideOutputs (Suc 0) module_host ''/lab'' ?so ''a'' Map.empty =
              (case run_module
                      (wrapRequire 0 module_host
                         (module_require module_host (side_filename module_host ''/lab'' ''a''))
                         (path_dirname module_host (side_filename module_host ''/lab'' ''a'')) ?so)
                      (module_compile module_host ''exports.a = 1''
                         (side_filename module_host ''/lab'' ''a'')) Map.empty of
                 (Inl e, ms') \<Rightarrow> (Inl e, ms')
               | (Inr v, ms') \<Rightarrow>
                   (Inr v, ms'(side_filename module_host ''/lab'' ''a'' \<mapsto>
                      \<lparr>mod_filename = side_filename module_host ''/lab'' ''a'', mod_exports = v,
                       compiled_from = ''exports.a = 1''\<rparr>)))"
      using t1 hyp by blast
    then show ?thesis by (simp add: module_host_filename mc)
  qed
  note t2 = side_module_cache_coherent
              [OF c1, of "[]" 1 module_host "''/lab''" "''a''"]
  have again: "require_times 2 0 module_host ''/lab'' ?so ''a'' ?ms =
               (replicate 2 (Inr (Str ''exports.a = 1'')), ?ms)"
    using t2 load by blast
  have ex: "coherent
              (sideOutputs (snd (execute_then failing_host ''let x = y;'' [] example_executor)))
              (sideModules (snd (execute_then failing_host ''let x = y;'' [] example_executor)))"
    using side_module_cache_coherent [OF c0, of "[]" 0 failing_host]
      example_executor_fields(4,5)
    by blast
  have r2: "replicate 2 (Inr (Str ''exports.a = 1'')) =
            [Inr (Str ''exports.a = 1''), Inr (Str ''exports.a = 1'')]"
    by (simp add: numeral_2_eq_2)
  show ?thesis
    by (intro conjI) (rule c0 u c1 load again[unfolded r2] ex)+
qed

text \<open>
  What the wrapped \<open>require\<close> returns for a path with a cached instance: the instance's
  exports when they are truthy, and otherwise what the host's own \<open>require\<close> returns.
\<close>

lemma wrapRequire_cached:
  assumes "ms (side_filename h dirname arg) = Some m" and "arg \<noteq> ''tslab''"
  shows "wrapRequire d h req dirname so [arg] ms =
           (if truthy (mod_exports m) then (Inr (mod_exports m), ms) else (req [arg], ms))"
  using assms by (simp add: wrapRequire.simps requireFromSideOutputs.simps Let_def)

text \<open>
  C3 at a side module whose exports are falsy. The cache holds the instance compiled
  from the source now recorded for the path, \<open>module.exports = 0\<close>; importing the path does
  not return the exports of that instance, \<open>0\<close>, but what the host's own \<open>require\<close> returns
  for the specifier, here the host's failure to find the module, and it does so every time.
\<close>

theorem wrapRequire_cached_falsy_exports:
  "zero_outputs (side_filename zero_host ''/lab'' ''zero'') =
     Some (compiled_from zero_instance) \<and>
   zero_modules (side_filename zero_host ''/lab'' ''zero'') = Some zero_instance \<and>
   mod_exports zero_instance = Num 0 \<and>
   wrapRequire 8 zero_host (createRequire zero_host ''/lab'') ''/lab'' zero_outputs [''zero'']
       zero_modules =
     (Inl (Error ''Cannot find module''), zero_modules)"
proof -
  have f: "side_filename zero_host ''/lab'' ''zero'' = ''/lab/zero.js''"
    by (simp add: side_filename_def zero_host_def example_host_def)
  have c: "zero_outputs (side_filename zero_host ''/lab'' ''zero'') =
             Some (compiled_from zero_instance)"
    by (simp add: f zero_outputs_def zero_instance_def)
  have m: "zero_modules (side_filename zero_host ''/lab'' ''zero'') = Some zero_instance"
    by (simp add: f zero_modules_def)
  have e: "mod_exports zero_instance = Num 0" by (simp add: zero_instance_def)
  have r: "createRequire zero_host ''/lab'' [''zero''] = Inl (Error ''Cannot find module'')"
    by (simp add: createRequire_def zero_host_def example_host_def)
  have "wrapRequire 8 zero_host (createRequire zero_host ''/lab'') ''/lab'' zero_outputs
          [''zero''] zero_modules = (Inl (Error ''Cannot find module''), zero_modules)"
    using wrapRequire_cached
            [where ms=zero_modules and h=zero_host and dirname="''/lab''" and arg="''zero''"
               and m=zero_instance and d=8 and req="createRequire zero_host ''/lab''"
               and so=zero_outputs, OF m] e r
    by simp
  then show ?thesis using c m e by simp
qed

text \<open>
  C9 at a side module whose exports are falsy. The source \<open>module.exports = 0\<close> is recorded
  for the path the specifier resolves to; the wrapped \<open>require\<close> compiles it and caches the
  instance, and then returns what the host's own \<open>require\<close> returns for the specifier,
  here the host's failure to find the module.
\<close>

theorem wrapRequire_falsy_exports:
  "[''/lab/zero.js'' \<mapsto> ''module.exports = 0''] (side_filename zero_host ''/lab'' ''zero'')
     = Some ''module.exports = 0'' \<and>
   wrapRequire 8 zero_host (createRequire zero_host ''/lab'') ''/lab''
       [''/lab/zero.js'' \<mapsto> ''module.exports = 0''] [''zero''] Map.empty =
     (createRequire zero_host ''/lab'' [''zero''],
      [''/lab/zero.js'' \<mapsto> \<lparr>mod_filename = ''/lab/zero.js'', mod_exports = Num 0,
                               compiled_from = ''module.exports = 0''\<rparr>]) \<and>
   createRequire zero_host ''/lab'' [''zero''] = Inl (Error ''Cannot find module'')"
  by (simp add: wrapRequire.simps requireFromSideOutputs.simps side_filename_def Let_def
        zero_host_def example_host_def createRequire_def eval_nat_numeral)


end
